theory Spec2Isabelle
  imports Main "HOL-Library.AList" "HOL-Library.Sublist"
begin

section \<open>Values exchanged with the Elastic Job Registry\<close>

text \<open>
  Embedding of \<^verbatim>\<open>openeo_driver/jobregistry.py\<close>.  Python strings are \<^typ>\<open>string\<close>
  (one \<^typ>\<open>char\<close> per code point, so code points below 256), Python integers are
  \<^typ>\<open>int\<close>, and the documents sent to and received from the service are values of
  \<open>json\<close>.  A dictionary is an association list in insertion order; a float is kept as
  its \<^verbatim>\<open>repr\<close> text, which identifies it.
\<close>

datatype json =
    JNull
  | JBool bool
  | JInt int
  | JFloat string
  | JStr string
  | JList "json list"
  | JObj "(string \<times> json) list"

text \<open>Every exception the modelled code can raise or let through.\<close>

datatype error =
    AssertionError string
  | KeyError string
  | TypeError
  | AttributeError
  | EjrError string
  | EjrHttpError string "int option"
  | HTTPError string
  | JobNotFoundException string
  | InternalException string
  | ExternalError string

subsection \<open>Python built-ins used for messages and queries\<close>

definition digit_char :: "nat \<Rightarrow> char" where
  "digit_char n = ''0123456789abcdef'' ! n"

fun nat_str :: "nat \<Rightarrow> string" where
  "nat_str n = (if n < 10 then [digit_char n] else nat_str (n div 10) @ [digit_char (n mod 10)])"

declare nat_str.simps [simp del]

text \<open>\<^verbatim>\<open>str(i)\<close> for an integer.\<close>

definition int_str :: "int \<Rightarrow> string" where
  "int_str i = (if i < 0 then CHR ''-'' # nat_str (nat (- i)) else nat_str (nat i))"

text \<open>
  \<^verbatim>\<open>repr(s)\<close> for a string: single quotes unless the text has a single quote and no
  double quote; the quote and the backslash are escaped, as are tab, newline, carriage
  return and the code points that are not printable.
\<close>

definition printable :: "char \<Rightarrow> bool" where
  "printable c = (let n = (of_char c :: nat) in
     \<not> (n < 32 \<or> n = 127 \<or> (128 \<le> n \<and> n \<le> 160) \<or> n = 173))"

definition repr_char :: "char \<Rightarrow> char \<Rightarrow> string" where
  "repr_char quote c =
     (if c = quote \<or> c = CHR 0x5C then [CHR 0x5C, c]
      else if c = CHR 0x09 then [CHR 0x5C, CHR ''t'']
      else if c = CHR 0x0A then [CHR 0x5C, CHR ''n'']
      else if c = CHR 0x0D then [CHR 0x5C, CHR ''r'']
      else if \<not> printable c then
        [CHR 0x5C, CHR ''x'', digit_char (of_char c div 16), digit_char (of_char c mod 16)]
      else [c])"

definition repr_quote :: "string \<Rightarrow> char" where
  "repr_quote s = (if CHR 0x27 \<in> set s \<and> CHR 0x22 \<notin> set s then CHR 0x22 else CHR 0x27)"

definition repr_str :: "string \<Rightarrow> string" where
  "repr_str s = (let q = repr_quote s in [q] @ concat (map (repr_char q) s) @ [q])"

text \<open>Truth value of an optional string and of an optional integer.\<close>

definition truthy_str :: "string option \<Rightarrow> bool" where
  "truthy_str x = (case x of None \<Rightarrow> False | Some s \<Rightarrow> s \<noteq> [])"

definition truthy_int :: "int option \<Rightarrow> bool" where
  "truthy_int x = (case x of None \<Rightarrow> False | Some i \<Rightarrow> i \<noteq> 0)"

section \<open>The HTTP transport\<close>

text \<open>
  What \<^verbatim>\<open>requests\<close> sees: the request handed to \<^verbatim>\<open>session.request\<close> and the
  response it gives back.  \<open>resp_json\<close> is the outcome of \<^verbatim>\<open>response.json()\<close>
  (it raises when the body is not JSON); \<open>request_method\<close> and \<open>request_url\<close> are
  \<^verbatim>\<open>response.request.method\<close> and \<^verbatim>\<open>response.request.url\<close>.
\<close>

record http_request =
  req_method :: string
  req_url :: string
  req_json :: "json option"
  req_headers :: "(string \<times> string) list"
  req_timeout :: nat

record http_response =
  status_code :: int
  reason :: string
  resp_text :: string
  resp_url :: string
  resp_json :: "error + json"
  request_method :: string
  request_url :: string

text \<open>
  \<^verbatim>\<open>requests.Response.raise_for_status\<close> (transport library): an \<^verbatim>\<open>HTTPError\<close> for a
  client error (400 to 499) or a server error (500 to 599), nothing otherwise.
\<close>

definition raise_for_status :: "http_response \<Rightarrow> error option" where
  "raise_for_status r =
     (if 400 \<le> status_code r \<and> status_code r < 500 then
        Some (HTTPError (int_str (status_code r) @ '' Client Error: '' @ reason r
                         @ '' for url: '' @ resp_url r))
      else if 500 \<le> status_code r \<and> status_code r < 600 then
        Some (HTTPError (int_str (status_code r) @ '' Server Error: '' @ reason r
                         @ '' for url: '' @ resp_url r))
      else None)"

text \<open>\<^verbatim>\<open>EjrHttpError.from_response\<close>.\<close>

definition from_response :: "http_response \<Rightarrow> error" where
  "from_response response =
     EjrHttpError
       (''EJR API error: '' @ int_str (status_code response) @ '' '' @ repr_str (reason response)
        @ '' on '' @ [CHR 0x60] @ request_method response @ '' '' @ repr_str (request_url response)
        @ [CHR 0x60] @ '': '' @ resp_text response)
       (Some (status_code response))"

section \<open>Python containers\<close>

definition join :: "string \<Rightarrow> string list \<Rightarrow> string" where
  "join sep xs = (case xs of [] \<Rightarrow> [] | y # ys \<Rightarrow> y @ concat (map (\<lambda>z. sep @ z) ys))"

text \<open>\<^verbatim>\<open>repr\<close> of a decoded JSON document.\<close>

fun repr_json :: "json \<Rightarrow> string" where
  "repr_json JNull = ''None''"
| "repr_json (JBool b) = (if b then ''True'' else ''False'')"
| "repr_json (JInt i) = int_str i"
| "repr_json (JFloat t) = t"
| "repr_json (JStr s) = repr_str s"
| "repr_json (JList xs) = ''['' @ join '', '' (map repr_json xs) @ '']''"
| "repr_json (JObj kvs) =
     ''{'' @ join '', '' (map (\<lambda>kv. repr_str (fst kv) @ '': '' @ repr_json (snd kv)) kvs) @ ''}''"

text \<open>\<^verbatim>\<open>len(x)\<close>, \<^verbatim>\<open>x[0]\<close>, \<^verbatim>\<open>x[key]\<close>, \<^verbatim>\<open>x.get(key)\<close> and iteration, on a decoded document.\<close>

definition py_len :: "json \<Rightarrow> error + nat" where
  "py_len x = (case x of
       JList xs \<Rightarrow> Inr (length xs)
     | JObj kvs \<Rightarrow> Inr (length kvs)
     | JStr s \<Rightarrow> Inr (length s)
     | _ \<Rightarrow> Inl TypeError)"

definition py_first :: "json \<Rightarrow> error + json" where
  "py_first x = (case x of
       JList xs \<Rightarrow> (case xs of [] \<Rightarrow> Inl (ExternalError ''IndexError'') | y # _ \<Rightarrow> Inr y)
     | JObj kvs \<Rightarrow> Inl (KeyError ''0'')
     | JStr s \<Rightarrow> (case s of [] \<Rightarrow> Inl (ExternalError ''IndexError'') | c # _ \<Rightarrow> Inr (JStr [c]))
     | _ \<Rightarrow> Inl TypeError)"

definition py_getitem :: "json \<Rightarrow> string \<Rightarrow> error + json" where
  "py_getitem x k = (case x of
       JObj kvs \<Rightarrow> (case map_of kvs k of None \<Rightarrow> Inl (KeyError (repr_str k)) | Some v \<Rightarrow> Inr v)
     | _ \<Rightarrow> Inl TypeError)"

definition py_get :: "json \<Rightarrow> string \<Rightarrow> error + json" where
  "py_get x k = (case x of
       JObj kvs \<Rightarrow> Inr (case map_of kvs k of None \<Rightarrow> JNull | Some v \<Rightarrow> v)
     | _ \<Rightarrow> Inl AttributeError)"

definition py_iter :: "json \<Rightarrow> error + json list" where
  "py_iter x = (case x of
       JList xs \<Rightarrow> Inr xs
     | JObj kvs \<Rightarrow> Inr (map (\<lambda>kv. JStr (fst kv)) kvs)
     | JStr s \<Rightarrow> Inr (map (\<lambda>c. JStr [c]) s)
     | _ \<Rightarrow> Inl TypeError)"

text \<open>
  A Python set of strings is a list without duplicates; the order in which it is iterated
  is not fixed by the language (string hashing differs between processes), so
  \<^verbatim>\<open>list(a_set)\<close> takes the order from a parameter, which is followed whenever it
  enumerates the set.
\<close>

definition list_of_set :: "(string list \<Rightarrow> string list) \<Rightarrow> string list \<Rightarrow> string list" where
  "list_of_set order xs =
     (let ys = remdups xs; zs = order ys
      in if distinct zs \<and> set zs = set ys then zs else ys)"


section \<open>Status vocabulary\<close>

definition JOB_STATUS_CREATED :: string where "JOB_STATUS_CREATED = ''created''"
definition JOB_STATUS_QUEUED :: string where "JOB_STATUS_QUEUED = ''queued''"
definition JOB_STATUS_RUNNING :: string where "JOB_STATUS_RUNNING = ''running''"
definition JOB_STATUS_CANCELED :: string where "JOB_STATUS_CANCELED = ''canceled''"
definition JOB_STATUS_FINISHED :: string where "JOB_STATUS_FINISHED = ''finished''"
definition JOB_STATUS_ERROR :: string where "JOB_STATUS_ERROR = ''error''"

section \<open>Credentials\<close>







section \<open>The registry and its surroundings\<close>

text \<open>
  One record holds the attributes of an \<^verbatim>\<open>ElasticJobRegistry\<close> instance (\<open>self_\<close>),
  what has happened so far (\<open>sent\<close>, the requests handed to the HTTP session, oldest
  first; \<open>tick\<close>, the number of clock reads; \<open>uid_count\<close>, the number of generated ids)
  and the collaborators that are not part of this module (\<open>env_\<close>).

  \<open>self_authenticator\<close> is \<open>None\<close> until OIDC client credentials are set up, and
  otherwise gives the outcome of \<^verbatim>\<open>get_tokens().access_token\<close>.  \<open>env_respond\<close> is the
  remote service behind the session: given the earlier requests and the current one it
  raises (time-out, connection failure) or answers.
\<close>

record state =
  self_backend_id :: "string option"
  self_api_url :: string
  self_authenticator :: "(error + string) option"
  self_cache :: "string \<rightharpoonup> string \<times> nat"
  sent :: "http_request list"
  tick :: nat
  uid_count :: nat
  env_respond :: "http_request list \<Rightarrow> http_request \<Rightarrow> error + http_response"
  env_url_join :: "string \<Rightarrow> string \<Rightarrow> string"
  env_time_at :: "nat \<Rightarrow> nat"
  env_utcnow_at :: "nat \<Rightarrow> string"
  env_rfc3339_datetime :: "string \<Rightarrow> error + string"
  env_unique_id :: "string \<Rightarrow> nat \<Rightarrow> string"
  env_set_order :: "string list \<Rightarrow> string list"
  env_decimal_capitals :: bool

definition REQUEST_TIMEOUT :: nat where
  "REQUEST_TIMEOUT = 20"

text \<open>\<^verbatim>\<open>time.time()\<close> and \<^verbatim>\<open>rfc3339.utcnow()\<close>: each read may give a new value.\<close>

definition time_now :: "state \<Rightarrow> nat \<times> state" where
  "time_now s = (env_time_at s (tick s), s\<lparr>tick := Suc (tick s)\<rparr>)"

definition utcnow :: "state \<Rightarrow> string \<times> state" where
  "utcnow s = (env_utcnow_at s (tick s), s\<lparr>tick := Suc (tick s)\<rparr>)"

text \<open>
  Modelled from the spec: \<^verbatim>\<open>generate_unique_id\<close> of \<^verbatim>\<open>openeo_driver.utils\<close> is not among
  the sources.  The spec fixes a short prefix and a globally unique suffix and leaves the
  format open, so the generated text is a parameter of the prefix and of the number of
  ids generated before.
\<close>

definition generate_unique_id :: "string \<Rightarrow> state \<Rightarrow> string \<times> state" where
  "generate_unique_id pfx s =
     (env_unique_id s pfx (uid_count s), s\<lparr>uid_count := Suc (uid_count s)\<rparr>)"

definition generate_job_id :: "state \<Rightarrow> string \<times> state" where
  "generate_job_id s = generate_unique_id ''j'' s"

text \<open>The \<^verbatim>\<open>backend_id\<close> property: asserts that a backend id was given.\<close>

definition backend_id :: "state \<Rightarrow> error + string" where
  "backend_id s =
     (case self_backend_id s of
        None \<Rightarrow> Inl (AssertionError [])
      | Some b \<Rightarrow> if b = [] then Inl (AssertionError []) else Inr b)"

definition get_access_token :: "state \<Rightarrow> (error + string) \<times> state" where
  "get_access_token s =
     (case self_authenticator s of
        None \<Rightarrow> (Inl (EjrError ''No authentication set up''), s)
      | Some tokens \<Rightarrow> (tokens, s))"

text \<open>
  Modelled from the spec: \<^verbatim>\<open>TtlCache\<close> of \<^verbatim>\<open>openeo_driver.util.caching\<close> is not among the
  sources.  \<^verbatim>\<open>get_or_call\<close> returns the cached value when there is one younger than
  its time to live; otherwise it calls \<open>callback\<close>, stores the result with a fresh expiry
  and returns it.  A callback that raises stores nothing.
\<close>

definition get_or_call ::
  "string \<Rightarrow> (state \<Rightarrow> (error + string) \<times> state) \<Rightarrow> nat \<Rightarrow> state \<Rightarrow> (error + string) \<times> state" where
  "get_or_call key callback ttl s =
     (case time_now s of (now, s1) \<Rightarrow>
        (case (case self_cache s1 key of
                 None \<Rightarrow> None
               | Some (v, expiry) \<Rightarrow> if now < expiry then Some v else None) of
           Some v \<Rightarrow> (Inr v, s1)
         | None \<Rightarrow>
             (case callback s1 of
                (Inl e, s2) \<Rightarrow> (Inl e, s2)
              | (Inr v, s2) \<Rightarrow>
                  (case time_now s2 of (stored, s3) \<Rightarrow>
                     (Inr v, s3\<lparr>self_cache := (self_cache s3)(key \<mapsto> (v, stored + ttl))\<rparr>)))))"

text \<open>The headers of a request: the bearer token when \<open>use_auth\<close>.\<close>

definition request_headers :: "bool \<Rightarrow> state \<Rightarrow> (error + (string \<times> string) list) \<times> state" where
  "request_headers use_auth s =
     (if use_auth then
        (case get_or_call ''api_access_token'' get_access_token (30 * 60) s of
           (Inl e, s1) \<Rightarrow> (Inl e, s1)
         | (Inr access_token, s1) \<Rightarrow> (Inr [(''Authorization'', ''Bearer '' @ access_token)], s1))
      else (Inr [], s))"

text \<open>\<^verbatim>\<open>self._session.request(...)\<close>: the request is recorded, the service answers.\<close>

definition session_request :: "http_request \<Rightarrow> state \<Rightarrow> (error + http_response) \<times> state" where
  "session_request req s = (env_respond s (sent s) req, s\<lparr>sent := sent s @ [req]\<rparr>)"

text \<open>
  \<^verbatim>\<open>ElasticJobRegistry._do_request\<close>.  Logging, the timing wrapper and the optional
  rendering of the request as a command line have no effect on the result and are left
  out.
\<close>

definition do_request ::
  "string \<Rightarrow> string \<Rightarrow> json option \<Rightarrow> bool \<Rightarrow> int option \<Rightarrow> state \<Rightarrow> (error + json) \<times> state" where
  "do_request method path body use_auth expected_status s =
     (case request_headers use_auth s of
        (Inl e, s1) \<Rightarrow> (Inl e, s1)
      | (Inr headers, s1) \<Rightarrow>
          (case session_request
                  \<lparr>req_method = method, req_url = env_url_join s1 (self_api_url s1) path,
                   req_json = body, req_headers = headers, req_timeout = REQUEST_TIMEOUT\<rparr> s1 of
             (Inl e, s2) \<Rightarrow> (Inl e, s2)
           | (Inr response, s2) \<Rightarrow>
               (if truthy_int expected_status \<and> Some (status_code response) \<noteq> expected_status
                then (Inl (from_response response), s2)
                else (case raise_for_status response of
                        Some e \<Rightarrow> (Inl e, s2)
                      | None \<Rightarrow> (resp_json response, s2)))))"

section \<open>Registry operations\<close>

definition json_opt_str :: "string option \<Rightarrow> json" where
  "json_opt_str x = (case x of None \<Rightarrow> JNull | Some t \<Rightarrow> JStr t)"

definition json_opt :: "json option \<Rightarrow> json" where
  "json_opt x = (case x of None \<Rightarrow> JNull | Some v \<Rightarrow> v)"

text \<open>\<^verbatim>\<open>ElasticJobRegistry.create_job\<close>.\<close>

definition create_job ::
  "json \<Rightarrow> string \<Rightarrow> string option \<Rightarrow> string option \<Rightarrow> string option \<Rightarrow> string option
     \<Rightarrow> string option \<Rightarrow> json option \<Rightarrow> state \<Rightarrow> (error + json) \<times> state" where
  "create_job process user_id job_id title description parent_id api_version job_options s =
     (case (case job_id of
              None \<Rightarrow> generate_job_id s
            | Some j \<Rightarrow> if j = [] then generate_job_id s else (j, s)) of
        (job_id', s1) \<Rightarrow>
          (case utcnow s1 of (created, s2) \<Rightarrow>
             (case backend_id s2 of
                Inl e \<Rightarrow> (Inl e, s2)
              | Inr b \<Rightarrow>
                  do_request ''POST'' ''/jobs''
                    (Some (JObj
                      [(''backend_id'', JStr b),
                       (''user_id'', JStr user_id),
                       (''job_id'', JStr job_id'),
                       (''process'', process),
                       (''title'', json_opt_str title),
                       (''description'', json_opt_str description),
                       (''status'', JStr JOB_STATUS_CREATED),
                       (''created'', JStr created),
                       (''updated'', JStr created),
                       (''job_options'', json_opt job_options),
                       (''parent_id'', json_opt_str parent_id),
                       (''application_id'', JNull),
                       (''api_version'', json_opt_str api_version)]))
                    True (Some 201) s2)))"

text \<open>\<^verbatim>\<open>ElasticJobRegistry._search\<close>.\<close>

definition basic_fields :: "string list" where
  "basic_fields = [''job_id'', ''user_id'', ''created'', ''status'', ''updated'']"

definition ejr_search :: "json \<Rightarrow> string list option \<Rightarrow> state \<Rightarrow> (error + json) \<times> state" where
  "ejr_search query flds s =
     do_request ''POST'' ''/jobs/search''
       (Some (JObj
         [(''query'', query),
          (''_source'',
             JList (map JStr
               (list_of_set (env_set_order s)
                  ((case flds of None \<Rightarrow> [] | Some fs \<Rightarrow> fs) @ basic_fields))))]))
       True (Some 200) s"

text \<open>
  The summary of the offending records that \<^verbatim>\<open>get_job\<close> builds before it reports more
  than one match: \<^verbatim>\<open>j.get(k)\<close> raises on a record that is not a dictionary.
\<close>

fun job_summaries :: "json list \<Rightarrow> error + json list" where
  "job_summaries [] = Inr []"
| "job_summaries (j # js) =
     (case py_get j ''user_id'' of
        Inl e \<Rightarrow> Inl e
      | Inr u \<Rightarrow>
          (case py_get j ''created'' of
             Inl e \<Rightarrow> Inl e
           | Inr c \<Rightarrow>
               (case job_summaries js of
                  Inl e \<Rightarrow> Inl e
                | Inr rest \<Rightarrow> Inr (JObj [(''user_id'', u), (''created'', c)] # rest))))"

text \<open>
  What \<^verbatim>\<open>get_job\<close> does with the search result.  Assertions are executed, as they are
  unless the interpreter is told to drop them.
\<close>

definition get_job_result :: "string \<Rightarrow> json \<Rightarrow> error + json" where
  "get_job_result job_id jobs =
     (case py_len jobs of
        Inl e \<Rightarrow> Inl e
      | Inr n \<Rightarrow>
          if n = 1 then
            (case py_first jobs of
               Inl e \<Rightarrow> Inl e
             | Inr job \<Rightarrow>
                 (case py_getitem job ''job_id'' of
                    Inl e \<Rightarrow> Inl e
                  | Inr v \<Rightarrow>
                      if v = JStr job_id then Inr job
                      else Inl (AssertionError
                             (''job['' @ [CHR 0x27] @ ''job_id'' @ [CHR 0x27] @ '']='' @ repr_json v
                              @ '' != job_id='' @ repr_str job_id))))
          else if n = 0 then Inl (JobNotFoundException job_id)
          else
            (case py_iter jobs of
               Inl e \<Rightarrow> Inl e
             | Inr js \<Rightarrow>
                 (case job_summaries js of
                    Inl e \<Rightarrow> Inl e
                  | Inr summary \<Rightarrow>
                      Inl (InternalException
                             (''Found '' @ int_str (int n) @ '' jobs for job_id='' @ repr_str job_id)))))"

text \<open>\<^verbatim>\<open>ElasticJobRegistry.get_job\<close>.\<close>

definition term_filter :: "string \<Rightarrow> json \<Rightarrow> json" where
  "term_filter field v = JObj [(''term'', JObj [(field, v)])]"

definition bool_filter :: "json list \<Rightarrow> json" where
  "bool_filter clauses = JObj [(''bool'', JObj [(''filter'', JList clauses)])]"

definition get_job :: "string \<Rightarrow> string list option \<Rightarrow> state \<Rightarrow> (error + json) \<times> state" where
  "get_job job_id flds s =
     (case backend_id s of
        Inl e \<Rightarrow> (Inl e, s)
      | Inr b \<Rightarrow>
          (case ejr_search
                  (bool_filter [term_filter ''backend_id'' (JStr b), term_filter ''job_id'' (JStr job_id)])
                  (Some (case flds of None \<Rightarrow> [''*''] | Some fs \<Rightarrow> if fs = [] then [''*''] else fs))
                  s of
             (Inl e, s1) \<Rightarrow> (Inl e, s1)
           | (Inr jobs, s1) \<Rightarrow> (get_job_result job_id jobs, s1)))"

text \<open>\<^verbatim>\<open>ElasticJobRegistry._update\<close>.\<close>

definition ejr_update :: "string \<Rightarrow> json \<Rightarrow> state \<Rightarrow> (error + json) \<times> state" where
  "ejr_update job_id data s = do_request ''PATCH'' (''/jobs/'' @ job_id) (Some data) True (Some 200) s"

text \<open>\<^verbatim>\<open>ElasticJobRegistry.set_status\<close>.\<close>

definition set_status ::
  "string \<Rightarrow> string \<Rightarrow> string option \<Rightarrow> string option \<Rightarrow> string option \<Rightarrow> state
     \<Rightarrow> (error + json) \<times> state" where
  "set_status job_id status updated started finished s =
     (case (if truthy_str updated then (env_rfc3339_datetime s (the updated), s)
            else (case utcnow s of (now, s1) \<Rightarrow> (Inr now, s1))) of
        (Inl e, s1) \<Rightarrow> (Inl e, s1)
      | (Inr u, s1) \<Rightarrow>
          (case (if truthy_str started then
                   (case env_rfc3339_datetime s1 (the started) of
                      Inl e \<Rightarrow> Inl e
                    | Inr t \<Rightarrow>
                        Inr (AList.update ''started'' (JStr t)
                               [(''status'', JStr status), (''updated'', JStr u)]))
                 else Inr [(''status'', JStr status), (''updated'', JStr u)]) of
             Inl e \<Rightarrow> (Inl e, s1)
           | Inr data \<Rightarrow>
               (case (if truthy_str finished then
                        (case env_rfc3339_datetime s1 (the finished) of
                           Inl e \<Rightarrow> Inl e
                         | Inr t \<Rightarrow> Inr (AList.update ''finished'' (JStr t) data))
                      else Inr data) of
                  Inl e \<Rightarrow> (Inl e, s1)
                | Inr data' \<Rightarrow> ejr_update job_id (JObj data') s1)))"

section \<open>Decimal numbers\<close>

text \<open>
  Python's \<^verbatim>\<open>decimal.Decimal\<close> (standard library): a sign, a coefficient and an exponent,
  or an infinity, or a quiet or signalling not-a-number with a diagnostic payload (zero
  when there is none).  \<open>Finite sg c e\<close> is \<open>(-1)^sg * c * 10^e\<close>; the coefficient is held
  without leading zeros, so it is a natural number.
\<close>

datatype decimal =
    Finite bool nat int
  | Infinity bool
  | NaN bool bool nat

definition sign_str :: "bool \<Rightarrow> string" where
  "sign_str sg = (if sg then ''-'' else [])"

text \<open>\<^verbatim>\<open>"%+d" % i\<close>.\<close>

definition signed_str :: "int \<Rightarrow> string" where
  "signed_str i = (if i < 0 then CHR ''-'' # nat_str (nat (- i)) else CHR ''+'' # nat_str (nat i))"

text \<open>
  \<^verbatim>\<open>Decimal.__str__\<close>, the scientific string of the decimal arithmetic specification.
  \<open>capitals\<close> is the setting of the current decimal context (an upper-case exponent
  marker unless changed).
\<close>

definition decimal_str :: "bool \<Rightarrow> decimal \<Rightarrow> string" where
  "decimal_str capitals d =
     (case d of
        Infinity sg \<Rightarrow> sign_str sg @ ''Infinity''
      | NaN sg signal payload \<Rightarrow>
          sign_str sg @ (if signal then ''sNaN'' else ''NaN'')
          @ (if payload = 0 then [] else nat_str payload)
      | Finite sg coeff ex \<Rightarrow>
          (let digs = nat_str coeff;
               len = int (length digs);
               leftdigits = ex + len;
               dotplace = (if ex \<le> 0 \<and> leftdigits > - 6 then leftdigits else 1);
               intpart =
                 (if dotplace \<le> 0 then ''0''
                  else if dotplace \<ge> len then digs @ replicate (nat (dotplace - len)) (CHR ''0'')
                  else take (nat dotplace) digs);
               fracpart =
                 (if dotplace \<le> 0 then ''.'' @ replicate (nat (- dotplace)) (CHR ''0'') @ digs
                  else if dotplace \<ge> len then []
                  else ''.'' @ drop (nat dotplace) digs);
               exp =
                 (if leftdigits = dotplace then []
                  else (if capitals then ''E'' else ''e'') @ signed_str (leftdigits - dotplace))
           in sign_str sg @ intpart @ fracpart @ exp))"

text \<open>
  \<^verbatim>\<open>Decimal(text)\<close>: surrounding white space and underscores are dropped, then the text
  must be an optional sign followed by a number (digits with an optional fraction and an
  optional exponent, at least one digit), an infinity or a not-a-number, in any letter
  case.  \<open>None\<close> stands for the conversion being refused.
\<close>

definition is_digit :: "char \<Rightarrow> bool" where
  "is_digit c = (48 \<le> (of_char c :: nat) \<and> (of_char c :: nat) \<le> 57)"

definition digit_val :: "char \<Rightarrow> nat" where
  "digit_val c = of_char c - 48"

definition digits_nat :: "string \<Rightarrow> nat" where
  "digits_nat ds = foldl (\<lambda>a c. 10 * a + digit_val c) 0 ds"

definition is_space :: "char \<Rightarrow> bool" where
  "is_space c = (let n = (of_char c :: nat) in
     (9 \<le> n \<and> n \<le> 13) \<or> (28 \<le> n \<and> n \<le> 32) \<or> n = 133 \<or> n = 160)"

definition strip :: "string \<Rightarrow> string" where
  "strip t = rev (dropWhile is_space (rev (dropWhile is_space t)))"

definition lower :: "char \<Rightarrow> char" where
  "lower c = (if 65 \<le> (of_char c :: nat) \<and> (of_char c :: nat) \<le> 90
              then char_of ((of_char c :: nat) + 32) else c)"

definition split_sign :: "string \<Rightarrow> bool \<times> string" where
  "split_sign t =
     (case t of
        [] \<Rightarrow> (False, [])
      | c # cs \<Rightarrow> if c = CHR ''-'' then (True, cs) else if c = CHR ''+'' then (False, cs) else (False, t))"

definition parse_exponent :: "string \<Rightarrow> int option" where
  "parse_exponent t =
     (case split_sign t of (neg, ds) \<Rightarrow>
        if ds \<noteq> [] \<and> list_all is_digit ds
        then Some (if neg then - int (digits_nat ds) else int (digits_nat ds))
        else None)"

definition parse_number :: "bool \<Rightarrow> string \<Rightarrow> decimal option" where
  "parse_number sg t =
     (let intpart = takeWhile is_digit t;
          rest = dropWhile is_digit t;
          fracpart = (case rest of
                        [] \<Rightarrow> []
                      | c # cs \<Rightarrow> if c = CHR ''.'' then takeWhile is_digit cs else []);
          rest' = (case rest of
                     [] \<Rightarrow> []
                   | c # cs \<Rightarrow> if c = CHR ''.'' then dropWhile is_digit cs else rest)
      in if intpart @ fracpart = [] then None
         else (case rest' of
                 [] \<Rightarrow> Some (Finite sg (digits_nat (intpart @ fracpart)) (0 - int (length fracpart)))
               | c # cs \<Rightarrow>
                   if lower c = CHR ''e'' then
                     (case parse_exponent cs of
                        None \<Rightarrow> None
                      | Some ex \<Rightarrow>
                          Some (Finite sg (digits_nat (intpart @ fracpart)) (ex - int (length fracpart))))
                   else None))"

definition parse_special :: "bool \<Rightarrow> string \<Rightarrow> decimal option" where
  "parse_special sg t =
     (let l = map lower t in
      if l = ''inf'' \<or> l = ''infinity'' then Some (Infinity sg)
      else if take 3 l = ''nan'' \<and> list_all is_digit (drop 3 t)
        then Some (NaN sg False (digits_nat (drop 3 t)))
      else if take 4 l = ''snan'' \<and> list_all is_digit (drop 4 t)
        then Some (NaN sg True (digits_nat (drop 4 t)))
      else None)"

definition decimal_of_str :: "string \<Rightarrow> decimal option" where
  "decimal_of_str text' =
     (case split_sign (filter (\<lambda>c. c \<noteq> CHR ''_'') (strip text')) of (sg, t) \<Rightarrow>
        if t \<noteq> [] \<and> (is_digit (hd t) \<or> (hd t = CHR ''.'' \<and> tl t \<noteq> [] \<and> is_digit (hd (tl t))))
        then parse_number sg t
        else parse_special sg t)"

text \<open>\<^verbatim>\<open>ElasticJobRegistry.set_dependency_usage\<close>.\<close>

definition set_dependency_usage :: "string \<Rightarrow> decimal \<Rightarrow> state \<Rightarrow> (error + json) \<times> state" where
  "set_dependency_usage job_id dependency_usage s =
     ejr_update job_id
       (JObj [(''dependency_usage'', JStr (decimal_str (env_decimal_capitals s) dependency_usage))]) s"

text \<open>The remaining single-purpose updates.\<close>

definition json_dependencies :: "(string \<times> string) list list \<Rightarrow> json" where
  "json_dependencies dependencies =
     JList (map (\<lambda>d. JObj (map (\<lambda>kv. (fst kv, JStr (snd kv))) d)) dependencies)"

definition set_dependencies ::
  "string \<Rightarrow> (string \<times> string) list list \<Rightarrow> state \<Rightarrow> (error + json) \<times> state" where
  "set_dependencies job_id dependencies s =
     ejr_update job_id (JObj [(''dependencies'', json_dependencies dependencies)]) s"

definition remove_dependencies :: "string \<Rightarrow> state \<Rightarrow> (error + json) \<times> state" where
  "remove_dependencies job_id s =
     ejr_update job_id (JObj [(''dependencies'', JNull), (''dependency_status'', JNull)]) s"

definition set_dependency_status :: "string \<Rightarrow> string \<Rightarrow> state \<Rightarrow> (error + json) \<times> state" where
  "set_dependency_status job_id dependency_status s =
     ejr_update job_id (JObj [(''dependency_status'', JStr dependency_status)]) s"

definition set_proxy_user :: "string \<Rightarrow> string \<Rightarrow> state \<Rightarrow> (error + json) \<times> state" where
  "set_proxy_user job_id proxy_user s =
     ejr_update job_id (JObj [(''proxy_user'', JStr proxy_user)]) s"

definition set_application_id :: "string \<Rightarrow> string \<Rightarrow> state \<Rightarrow> (error + json) \<times> state" where
  "set_application_id job_id application_id s =
     ejr_update job_id (JObj [(''application_id'', JStr application_id)]) s"

text \<open>\<^verbatim>\<open>ElasticJobRegistry.list_user_jobs\<close> and \<^verbatim>\<open>list_active_jobs\<close>.\<close>

definition list_user_jobs ::
  "string option \<Rightarrow> string list option \<Rightarrow> state \<Rightarrow> (error + json) \<times> state" where
  "list_user_jobs user_id flds s =
     (case backend_id s of
        Inl e \<Rightarrow> (Inl e, s)
      | Inr b \<Rightarrow>
          ejr_search
            (bool_filter [term_filter ''backend_id'' (JStr b), term_filter ''user_id'' (json_opt_str user_id)])
            flds s)"

definition list_active_jobs ::
  "int option \<Rightarrow> string list option \<Rightarrow> state \<Rightarrow> (error + json) \<times> state" where
  "list_active_jobs max_age flds s =
     (case backend_id s of
        Inl e \<Rightarrow> (Inl e, s)
      | Inr b \<Rightarrow>
          ejr_search
            (bool_filter
               [term_filter ''backend_id'' (JStr b),
                JObj [(''terms'',
                   JObj [(''status'',
                      JList [JStr JOB_STATUS_CREATED, JStr JOB_STATUS_QUEUED, JStr JOB_STATUS_RUNNING])])],
                JObj [(''range'',
                   JObj [(''created'',
                      JObj [(''gte'',
                         JStr (''now-'' @ int_str (if truthy_int max_age then the max_age else 7)
                               @ ''d''))])])]])
            flds s)"

section \<open>Observing a call\<close>

text \<open>The requests an operation hands to the HTTP session when started in state \<open>s\<close>.\<close>

definition issued :: "(state \<Rightarrow> 'a \<times> state) \<Rightarrow> state \<Rightarrow> http_request list" where
  "issued f s = drop (length (sent s)) (sent (snd (f s)))"

text \<open>The request that \<open>do_request\<close> builds in state \<open>s\<close> once the headers are known.\<close>

definition built_request ::
  "state \<Rightarrow> string \<Rightarrow> string \<Rightarrow> json option \<Rightarrow> (string \<times> string) list \<Rightarrow> http_request" where
  "built_request s method path body headers =
     \<lparr>req_method = method, req_url = env_url_join s (self_api_url s) path, req_json = body,
      req_headers = headers, req_timeout = REQUEST_TIMEOUT\<rparr>"

text \<open>The keys of a request's JSON body, and one of its members.\<close>

definition payload_keys :: "http_request \<Rightarrow> string list" where
  "payload_keys r = (case req_json r of Some (JObj d) \<Rightarrow> map fst d | _ \<Rightarrow> [])"

definition payload_field :: "http_request \<Rightarrow> string \<Rightarrow> json option" where
  "payload_field r k = (case req_json r of Some (JObj d) \<Rightarrow> map_of d k | _ \<Rightarrow> None)"

text \<open>A partial update of job \<open>job_id\<close> that names exactly the fields \<open>keys\<close>.\<close>

definition partial_update_of :: "state \<Rightarrow> string \<Rightarrow> string list \<Rightarrow> http_request \<Rightarrow> bool" where
  "partial_update_of s job_id keys r =
     (req_method r = ''PATCH''
      \<and> req_url r = env_url_join s (self_api_url s) (''/jobs/'' @ job_id)
      \<and> (case req_json r of Some (JObj d) \<Rightarrow> map fst d = keys | _ \<Rightarrow> False))"

text \<open>The field projection of a search request.\<close>

definition source_fields :: "http_request \<Rightarrow> json list" where
  "source_fields r = (case payload_field r ''_source'' of Some (JList fs) \<Rightarrow> fs | _ \<Rightarrow> [])"

text \<open>The clauses of the filter of a search request.\<close>

definition filter_clauses :: "http_request \<Rightarrow> json list" where
  "filter_clauses r =
     (case payload_field r ''query'' of
        Some (JObj [(b, JObj [(f, JList clauses)])]) \<Rightarrow>
          if b = ''bool'' \<and> f = ''filter'' then clauses else []
      | _ \<Rightarrow> [])"

text \<open>The lower bound on \<open>created\<close> in the range clause of a search for active jobs.\<close>

definition range_bound :: "http_request \<Rightarrow> json option" where
  "range_bound r =
     (case filter_clauses r of
        [backend, statuses, JObj [(rg, JObj [(cr, JObj [(g, v)])])]] \<Rightarrow>
          if rg = ''range'' \<and> cr = ''created'' \<and> g = ''gte'' then Some v else None
      | _ \<Rightarrow> None)"

text \<open>
  Modelled from the spec: the remote service is not among the sources.  Its partial update
  merges the named fields into the stored record (replaced, or added) and keeps every
  other field.
\<close>

definition merge_fields :: "(string \<times> json) list \<Rightarrow> (string \<times> json) list \<Rightarrow> (string \<times> json) list" where
  "merge_fields payload stored = fold (\<lambda>kv. AList.update (fst kv) (snd kv)) payload stored"

subsection \<open>A registry against a canned service\<close>

text \<open>
  A registry for backend \<open>test\<close> with client credentials set up and an empty token
  cache, talking to a service that gives the same answer to every request.
\<close>

definition canned_response :: "int \<Rightarrow> string \<Rightarrow> json \<Rightarrow> http_response" where
  "canned_response code phrase body =
     \<lparr>status_code = code, reason = phrase, resp_text = repr_json body,
      resp_url = ''https://ejr.test/'', resp_json = Inr body,
      request_method = ''POST'', request_url = ''https://ejr.test/''\<rparr>"

definition canned_registry :: "error + http_response \<Rightarrow> state" where
  "canned_registry answer =
     \<lparr>self_backend_id = Some ''test'',
      self_api_url = ''https://ejr.test'',
      self_authenticator = Some (Inr ''token''),
      self_cache = Map.empty,
      sent = [],
      tick = 0,
      uid_count = 0,
      env_respond = (\<lambda>history req. answer),
      env_url_join = (\<lambda>root path. root @ path),
      env_time_at = (\<lambda>n. 1000 + n),
      env_utcnow_at = (\<lambda>n. ''2024-05-01T10:00:0'' @ nat_str n @ ''Z''),
      env_rfc3339_datetime = (\<lambda>t. Inr t),
      env_unique_id = (\<lambda>pfx n. pfx @ ''-'' @ nat_str n),
      env_set_order = (\<lambda>xs. xs),
      env_decimal_capitals = True\<rparr>"

section \<open>The request pipeline, step by step\<close>

lemma get_or_call_frame:
  assumes "\<And>s. sent (snd (cb s)) = sent s"
    and "\<And>s. env_url_join (snd (cb s)) = env_url_join s"
    and "\<And>s. self_api_url (snd (cb s)) = self_api_url s"
    and "\<And>s. env_respond (snd (cb s)) = env_respond s"
  shows "sent (snd (get_or_call k cb ttl s)) = sent s
       \<and> env_url_join (snd (get_or_call k cb ttl s)) = env_url_join s
       \<and> self_api_url (snd (get_or_call k cb ttl s)) = self_api_url s
       \<and> env_respond (snd (get_or_call k cb ttl s)) = env_respond s"
proof -
  let ?s1 = "s\<lparr>tick := Suc (tick s)\<rparr>"
  have a: "sent (snd (cb ?s1)) = sent s" "env_url_join (snd (cb ?s1)) = env_url_join s"
    "self_api_url (snd (cb ?s1)) = self_api_url s" "env_respond (snd (cb ?s1)) = env_respond s"
    using assms[of ?s1] by simp_all
  show ?thesis
    using a
    by (cases "cb ?s1")
       (auto simp: get_or_call_def time_now_def split: option.splits sum.splits prod.splits)
qed

lemma request_headers_frame:
  "sent (snd (request_headers a s)) = sent s
   \<and> env_url_join (snd (request_headers a s)) = env_url_join s
   \<and> self_api_url (snd (request_headers a s)) = self_api_url s
   \<and> env_respond (snd (request_headers a s)) = env_respond s"
proof (cases a)
  case False
  then show ?thesis by (simp add: request_headers_def)
next
  case True
  have g: "sent (snd (get_or_call ''api_access_token'' get_access_token (30 * 60) s)) = sent s
       \<and> env_url_join (snd (get_or_call ''api_access_token'' get_access_token (30 * 60) s)) = env_url_join s
       \<and> self_api_url (snd (get_or_call ''api_access_token'' get_access_token (30 * 60) s)) = self_api_url s
       \<and> env_respond (snd (get_or_call ''api_access_token'' get_access_token (30 * 60) s)) = env_respond s"
    by (rule get_or_call_frame) (simp_all add: get_access_token_def split: option.splits)
  show ?thesis
    using g True
    by (cases "get_or_call ''api_access_token'' get_access_token (30 * 60) s")
       (auto simp: request_headers_def split: sum.splits)
qed

lemma do_request_unfold:
  "do_request m p b a e s =
     (case request_headers a s of
        (Inl err, s1) \<Rightarrow> (Inl err, s1)
      | (Inr h, s1) \<Rightarrow>
          (case env_respond s (sent s) (built_request s m p b h) of
             Inl err \<Rightarrow> (Inl err, s1\<lparr>sent := sent s @ [built_request s m p b h]\<rparr>)
           | Inr response \<Rightarrow>
               (if truthy_int e \<and> Some (status_code response) \<noteq> e
                then Inl (from_response response)
                else (case raise_for_status response of
                        Some err \<Rightarrow> Inl err
                      | None \<Rightarrow> resp_json response),
                s1\<lparr>sent := sent s @ [built_request s m p b h]\<rparr>)))"
proof -
  obtain r s1 where rs: "request_headers a s = (r, s1)" by (cases "request_headers a s")
  with request_headers_frame[of a s]
  have fr: "sent s1 = sent s" "env_url_join s1 = env_url_join s" "self_api_url s1 = self_api_url s"
    "env_respond s1 = env_respond s" by simp_all
  show ?thesis
    by (cases r)
       (simp_all add: do_request_def rs fr session_request_def built_request_def
             split: sum.splits option.splits)
qed

lemma do_request_issued:
  "issued (do_request m p b a e) s =
     (case fst (request_headers a s) of Inl err \<Rightarrow> [] | Inr h \<Rightarrow> [built_request s m p b h])"
proof -
  obtain r s1 where rs: "request_headers a s = (r, s1)" by (cases "request_headers a s")
  with request_headers_frame[of a s] have fr: "sent s1 = sent s" by simp
  show ?thesis
    by (cases r)
       (simp_all add: issued_def do_request_unfold rs fr split: sum.splits)
qed


lemma job_summaries_records:
  "\<forall>j\<in>set js. \<exists>d. j = JObj d \<Longrightarrow> \<exists>summary. job_summaries js = Inr summary"
  by (induction js) (auto simp: py_get_def)

lemma get_job_result_none:
  "py_len jobs = Inr 0 \<Longrightarrow> get_job_result job_id jobs = Inl (JobNotFoundException job_id)"
  by (simp add: get_job_result_def)

lemma get_job_result_many:
  assumes "2 \<le> length js" and "\<forall>j\<in>set js. \<exists>d. j = JObj d"
  shows "get_job_result job_id (JList js) =
           Inl (InternalException
                  (''Found '' @ int_str (int (length js)) @ '' jobs for job_id='' @ repr_str job_id))"
proof -
  obtain summary where "job_summaries js = Inr summary"
    using job_summaries_records[OF assms(2)] by blast
  with assms(1) show ?thesis
    by (auto simp: get_job_result_def py_len_def py_iter_def)
qed

lemma get_job_result_many_fails:
  assumes "py_len jobs = Inr n" and "2 \<le> n"
  shows "\<exists>e. get_job_result job_id jobs = Inl e"
  using assms by (auto simp: get_job_result_def split: sum.splits)

lemma get_job_result_returns:
  assumes "get_job_result job_id jobs = Inr job"
  shows "jobs = JList [job]"
proof -
  from assms obtain n where n: "py_len jobs = Inr n"
    by (auto simp: get_job_result_def split: sum.splits)
  from assms n have n1: "n = 1"
    by (auto simp: get_job_result_def split: sum.splits if_splits)
  from assms n n1 have f: "py_first jobs = Inr job"
    by (auto simp: get_job_result_def split: sum.splits if_splits)
  from assms n n1 f obtain v where "py_getitem job ''job_id'' = Inr v"
    by (auto simp: get_job_result_def split: sum.splits if_splits)
  then obtain d where d: "job = JObj d"
    by (cases job) (auto simp: py_getitem_def)
  from f n n1 d show ?thesis
    by (cases jobs) (auto simp: py_first_def py_len_def split: list.splits)
qed

lemma get_job_result_single:
  assumes "py_getitem job ''job_id'' = Inr v"
  shows "get_job_result job_id (JList [job]) =
           (if v = JStr job_id then Inr job
            else Inl (AssertionError
                   (''job['' @ [CHR 0x27] @ ''job_id'' @ [CHR 0x27] @ '']='' @ repr_json v
                    @ '' != job_id='' @ repr_str job_id)))"
  using assms by (simp add: get_job_result_def py_len_def py_first_def)

lemma get_job_unfold:
  assumes "backend_id s = Inr b"
    and "fst (ejr_search
               (bool_filter [term_filter ''backend_id'' (JStr b), term_filter ''job_id'' (JStr job_id)])
               (Some (case flds of None \<Rightarrow> [''*''] | Some fs \<Rightarrow> if fs = [] then [''*''] else fs)) s)
         = Inr jobs"
  shows "fst (get_job job_id flds s) = get_job_result job_id jobs"
  using assms by (auto simp: get_job_def split: prod.splits sum.splits)

text \<open>
  Claim C1.  Once the backend id is set and the search has returned \<open>jobs\<close>: with no
  record \<^verbatim>\<open>get_job\<close> raises \<^verbatim>\<open>JobNotFoundException\<close> for the requested job id; with two
  or more records it raises \<^verbatim>\<open>InternalException\<close> (and whatever the two or more items
  are, it raises); and it returns a record only if the search returned exactly that one
  record.
\<close>

theorem get_job_match_count:
  assumes "backend_id s = Inr b"
    and "fst (ejr_search
               (bool_filter [term_filter ''backend_id'' (JStr b), term_filter ''job_id'' (JStr job_id)])
               (Some (case flds of None \<Rightarrow> [''*''] | Some fs \<Rightarrow> if fs = [] then [''*''] else fs)) s)
         = Inr jobs"
  shows "(py_len jobs = Inr 0 \<longrightarrow>
            fst (get_job job_id flds s) = Inl (JobNotFoundException job_id))
       \<and> (\<forall>js. jobs = JList js \<and> 2 \<le> length js \<and> (\<forall>j\<in>set js. \<exists>d. j = JObj d) \<longrightarrow>
            fst (get_job job_id flds s) =
              Inl (InternalException
                     (''Found '' @ int_str (int (length js)) @ '' jobs for job_id='' @ repr_str job_id)))
       \<and> (\<forall>n. py_len jobs = Inr n \<and> 2 \<le> n \<longrightarrow> (\<exists>e. fst (get_job job_id flds s) = Inl e))
       \<and> (\<forall>job. fst (get_job job_id flds s) = Inr job \<longrightarrow> jobs = JList [job])"
  unfolding get_job_unfold[OF assms]
  using get_job_result_none get_job_result_many get_job_result_many_fails get_job_result_returns
  by blast


lemmas run_defs =
  do_request_def request_headers_def get_or_call_def time_now_def get_access_token_def
  session_request_def canned_registry_def canned_response_def truthy_int_def raise_for_status_def
  backend_id_def

theorem get_job_match_count_witness:
  "backend_id (canned_registry (Inr (canned_response 200 ''OK'' (JList [])))) = Inr ''test''
   \<and> fst (get_job ''j-1'' None (canned_registry (Inr (canned_response 200 ''OK'' (JList [])))))
       = Inl (JobNotFoundException ''j-1'')
   \<and> fst (get_job ''j-1'' None
            (canned_registry (Inr (canned_response 200 ''OK''
               (JList [JObj [(''job_id'', JStr ''j-1'')], JObj [(''job_id'', JStr ''j-1'')]])))))
       = Inl (InternalException (''Found 2 jobs for job_id='' @ [CHR 0x27] @ ''j-1'' @ [CHR 0x27]))"
proof -
  let ?q = "bool_filter [term_filter ''backend_id'' (JStr ''test''), term_filter ''job_id'' (JStr ''j-1'')]"
  let ?f = "Some (case None :: string list option of None \<Rightarrow> [''*'']
                  | Some fs \<Rightarrow> if fs = [] then [''*''] else fs)"
  let ?two = "[JObj [(''job_id'', JStr ''j-1'')], JObj [(''job_id'', JStr ''j-1'')]]"
  let ?s0 = "canned_registry (Inr (canned_response 200 ''OK'' (JList [])))"
  let ?s2 = "canned_registry (Inr (canned_response 200 ''OK'' (JList ?two)))"
  have b0: "backend_id ?s0 = Inr ''test''" by (simp add: run_defs)
  have b2: "backend_id ?s2 = Inr ''test''" by (simp add: run_defs)
  have r0: "fst (ejr_search ?q ?f ?s0) = Inr (JList [])"
    by (simp add: ejr_search_def run_defs)
  have r2: "fst (ejr_search ?q ?f ?s2) = Inr (JList ?two)"
    by (simp add: ejr_search_def run_defs)
  have n: "int_str 2 = ''2''" by code_simp
  have q: "repr_str ''j-1'' = [CHR 0x27] @ ''j-1'' @ [CHR 0x27]" by code_simp
  from get_job_match_count[OF b0 r0] get_job_match_count[OF b2 r2] b0 n q
  show ?thesis by (simp add: py_len_def)
qed

text \<open>
  Claim C10.  When the search returns exactly one record, \<^verbatim>\<open>get_job\<close> compares the
  record's \<open>job_id\<close> with the requested id: the record is returned when they are equal,
  and otherwise the call ends in an \<^verbatim>\<open>AssertionError\<close> that shows both.
\<close>

theorem get_job_asserts_job_id:
  assumes "backend_id s = Inr b"
    and "fst (ejr_search
               (bool_filter [term_filter ''backend_id'' (JStr b), term_filter ''job_id'' (JStr job_id)])
               (Some (case flds of None \<Rightarrow> [''*''] | Some fs \<Rightarrow> if fs = [] then [''*''] else fs)) s)
         = Inr (JList [job])"
    and "py_getitem job ''job_id'' = Inr v"
  shows "fst (get_job job_id flds s) =
           (if v = JStr job_id then Inr job
            else Inl (AssertionError
                   (''job['' @ [CHR 0x27] @ ''job_id'' @ [CHR 0x27] @ '']='' @ repr_json v
                    @ '' != job_id='' @ repr_str job_id)))"
  unfolding get_job_unfold[OF assms(1,2)] by (rule get_job_result_single[OF assms(3)])

theorem get_job_asserts_job_id_witness:
  "py_getitem (JObj [(''job_id'', JStr ''j-2'')]) ''job_id'' = Inr (JStr ''j-2'')
   \<and> fst (get_job ''j-1'' None
            (canned_registry (Inr (canned_response 200 ''OK'' (JList [JObj [(''job_id'', JStr ''j-2'')]])))))
       = Inl (AssertionError
               (''job['' @ [CHR 0x27] @ ''job_id'' @ [CHR 0x27] @ '']='' @ [CHR 0x27] @ ''j-2'' @ [CHR 0x27]
                @ '' != job_id='' @ [CHR 0x27] @ ''j-1'' @ [CHR 0x27]))
   \<and> fst (get_job ''j-2'' None
            (canned_registry (Inr (canned_response 200 ''OK'' (JList [JObj [(''job_id'', JStr ''j-2'')]])))))
       = Inr (JObj [(''job_id'', JStr ''j-2'')])"
proof -
  let ?q1 = "bool_filter [term_filter ''backend_id'' (JStr ''test''), term_filter ''job_id'' (JStr ''j-1'')]"
  let ?q2 = "bool_filter [term_filter ''backend_id'' (JStr ''test''), term_filter ''job_id'' (JStr ''j-2'')]"
  let ?f = "Some (case None :: string list option of None \<Rightarrow> [''*'']
                  | Some fs \<Rightarrow> if fs = [] then [''*''] else fs)"
  let ?job = "JObj [(''job_id'', JStr ''j-2'')]"
  let ?s = "canned_registry (Inr (canned_response 200 ''OK'' (JList [?job])))"
  have b: "backend_id ?s = Inr ''test''" by (simp add: run_defs)
  have r1: "fst (ejr_search ?q1 ?f ?s) = Inr (JList [?job])"
    by (simp add: ejr_search_def run_defs)
  have r2: "fst (ejr_search ?q2 ?f ?s) = Inr (JList [?job])"
    by (simp add: ejr_search_def run_defs)
  have g: "py_getitem ?job ''job_id'' = Inr (JStr ''j-2'')" by (simp add: py_getitem_def)
  have q1: "repr_str ''j-1'' = [CHR 0x27] @ ''j-1'' @ [CHR 0x27]" by code_simp
  have q2: "repr_str ''j-2'' = [CHR 0x27] @ ''j-2'' @ [CHR 0x27]" by code_simp
  from get_job_asserts_job_id[OF b r1 g] get_job_asserts_job_id[OF b r2 g] g q1 q2
  show ?thesis by simp
qed

section \<open>Requests issued by the operations\<close>

lemma do_request_sent:
  "sent (snd (do_request m p b a e s)) =
     sent s @ (case fst (request_headers a s) of Inl err \<Rightarrow> [] | Inr h \<Rightarrow> [built_request s m p b h])"
proof -
  obtain r s1 where rs: "request_headers a s = (r, s1)" by (cases "request_headers a s")
  with request_headers_frame[of a s] have fr: "sent s1 = sent s" by simp
  show ?thesis
    by (cases r) (simp_all add: do_request_unfold rs fr split: sum.splits)
qed

lemma update_sent:
  "sent (snd (ejr_update job_id data s)) =
     sent s @ (case fst (request_headers True s) of
                 Inl err \<Rightarrow> []
               | Inr h \<Rightarrow> [built_request s ''PATCH'' (''/jobs/'' @ job_id) (Some data) h])"
  unfolding ejr_update_def by (rule do_request_sent)

lemma issued_update:
  "issued (ejr_update job_id data) s =
     (case fst (request_headers True s) of
        Inl err \<Rightarrow> []
      | Inr h \<Rightarrow> [built_request s ''PATCH'' (''/jobs/'' @ job_id) (Some data) h])"
  unfolding issued_def update_sent by simp

lemma update_is_partial:
  "list_all (partial_update_of s job_id (map fst d)) (issued (ejr_update job_id (JObj d)) s)
   \<and> length (issued (ejr_update job_id (JObj d)) s) \<le> 1"
  unfolding issued_update
  by (simp add: partial_update_of_def built_request_def split: sum.splits)


lemma set_status_shape:
  "(\<exists>e s1. set_status job_id status updated started finished s = (Inl e, s1) \<and> sent s1 = sent s)
   \<or> (\<exists>d s1. set_status job_id status updated started finished s = ejr_update job_id (JObj d) s1
         \<and> map fst d = [''status'', ''updated''] @ (if truthy_str started then [''started''] else [])
                @ (if truthy_str finished then [''finished''] else [])
         \<and> sent s1 = sent s \<and> env_url_join s1 = env_url_join s \<and> self_api_url s1 = self_api_url s)"
proof -
  let ?step1 = "if truthy_str updated then (env_rfc3339_datetime s (the updated), s)
                else (case utcnow s of (now, s1) \<Rightarrow> (Inr now, s1))"
  obtain ru s1 where st1: "?step1 = (ru, s1)" by (cases ?step1)
  have fr: "sent s1 = sent s" "env_url_join s1 = env_url_join s" "self_api_url s1 = self_api_url s"
    "env_rfc3339_datetime s1 = env_rfc3339_datetime s"
    using st1 by (auto simp: utcnow_def split: if_splits)
  show ?thesis
  proof (cases ru)
    case (Inl e)
    with st1 fr show ?thesis by (simp add: set_status_def)
  next
    case (Inr u)
    let ?d0 = "[(''status'', JStr status), (''updated'', JStr u)]"
    let ?step2 = "if truthy_str started then
                   (case env_rfc3339_datetime s1 (the started) of
                      Inl e \<Rightarrow> Inl e
                    | Inr t \<Rightarrow> Inr (AList.update ''started'' (JStr t) ?d0))
                 else Inr ?d0"
    show ?thesis
    proof (cases ?step2)
      case (Inl e)
      with st1 Inr fr show ?thesis by (simp add: set_status_def)
    next
      case d1: (Inr data)
      have k1: "map fst data = [''status'', ''updated''] @ (if truthy_str started then [''started''] else [])"
        using d1 by (auto split: if_splits sum.splits)
      let ?step3 = "if truthy_str finished then
                        (case env_rfc3339_datetime s1 (the finished) of
                           Inl e \<Rightarrow> Inl e
                         | Inr t \<Rightarrow> Inr (AList.update ''finished'' (JStr t) data))
                      else Inr data"
      show ?thesis
      proof (cases ?step3)
        case (Inl e)
        with st1 Inr d1 fr show ?thesis by (simp add: set_status_def)
      next
        case d2: (Inr data')
        have k2: "map fst data' = [''status'', ''updated''] @ (if truthy_str started then [''started''] else [])
                @ (if truthy_str finished then [''finished''] else [])"
          using d2 k1 d1 by (auto split: if_splits sum.splits)
        have "set_status job_id status updated started finished s = ejr_update job_id (JObj data') s1"
          using st1 Inr d1 d2 by (simp add: set_status_def)
        with k2 fr show ?thesis by blast
      qed
    qed
  qed
qed

lemma set_status_issued:
  "list_all (partial_update_of s job_id
               ([''status'', ''updated''] @ (if truthy_str started then [''started''] else [])
                @ (if truthy_str finished then [''finished''] else [])))
            (issued (set_status job_id status updated started finished) s)
   \<and> length (issued (set_status job_id status updated started finished) s) \<le> 1"
proof -
  let ?f = "set_status job_id status updated started finished"
  let ?keys = "[''status'', ''updated''] @ (if truthy_str started then [''started''] else [])
                @ (if truthy_str finished then [''finished''] else [])"
  from set_status_shape[of job_id status updated started finished s]
  show ?thesis
  proof
    assume "\<exists>e s1. ?f s = (Inl e, s1) \<and> sent s1 = sent s"
    then have "sent (snd (?f s)) = sent s" by auto
    then show ?thesis by (simp add: issued_def)
  next
    assume "\<exists>d s1. ?f s = ejr_update job_id (JObj d) s1 \<and> map fst d = ?keys
         \<and> sent s1 = sent s \<and> env_url_join s1 = env_url_join s \<and> self_api_url s1 = self_api_url s"
    then obtain d s1 where e: "?f s = ejr_update job_id (JObj d) s1" and k: "map fst d = ?keys"
      and fr: "sent s1 = sent s" "env_url_join s1 = env_url_join s" "self_api_url s1 = self_api_url s"
      by blast
    have i: "issued ?f s = issued (ejr_update job_id (JObj d)) s1"
      using e fr(1) by (simp add: issued_def)
    have p: "partial_update_of s job_id ?keys = partial_update_of s1 job_id ?keys"
      using fr by (auto simp: partial_update_of_def fun_eq_iff)
    from update_is_partial[of s1 job_id d] k i p show ?thesis by simp
  qed
qed


lemma set_status_issued_exact:
  "issued (set_status job_id status updated started finished) s =
     (case (if truthy_str updated then env_rfc3339_datetime s (the updated)
            else Inr (env_utcnow_at s (tick s))) of
        Inl e \<Rightarrow> []
      | Inr u \<Rightarrow>
          (case (if truthy_str started then env_rfc3339_datetime s (the started) else Inr []) of
             Inl e \<Rightarrow> []
           | Inr st \<Rightarrow>
               (case (if truthy_str finished then env_rfc3339_datetime s (the finished) else Inr []) of
                  Inl e \<Rightarrow> []
                | Inr fin \<Rightarrow>
                    (case fst (request_headers True
                                 (if truthy_str updated then s else s\<lparr>tick := Suc (tick s)\<rparr>)) of
                       Inl e \<Rightarrow> []
                     | Inr h \<Rightarrow>
                         [built_request s ''PATCH'' (''/jobs/'' @ job_id)
                            (Some (JObj ([(''status'', JStr status), (''updated'', JStr u)]
                                         @ (if truthy_str started then [(''started'', JStr st)] else [])
                                         @ (if truthy_str finished then [(''finished'', JStr fin)] else []))))
                            h]))))"
proof -
  define s1 where "s1 = (if truthy_str updated then s else s\<lparr>tick := Suc (tick s)\<rparr>)"
  let ?u = "if truthy_str updated then env_rfc3339_datetime s (the updated)
            else Inr (env_utcnow_at s (tick s))"
  let ?st = "if truthy_str started then env_rfc3339_datetime s (the started) else Inr []"
  let ?fin = "if truthy_str finished then env_rfc3339_datetime s (the finished) else Inr []"
  have fr: "sent s1 = sent s" "env_rfc3339_datetime s1 = env_rfc3339_datetime s"
    "built_request s1 = built_request s"
    by (simp_all add: s1_def built_request_def fun_eq_iff)
  have step1: "(if truthy_str updated then (env_rfc3339_datetime s (the updated), s)
            else (case utcnow s of (now, s1) \<Rightarrow> (Inr now, s1))) = (?u, s1)"
    by (simp add: utcnow_def s1_def)
  show ?thesis
  proof (cases ?u)
    case (Inl e)
    then show ?thesis
      unfolding issued_def set_status_def step1 using fr(1) by simp
  next
    case u: (Inr u)
    show ?thesis
    proof (cases ?st)
      case (Inl e)
      then show ?thesis
        unfolding issued_def set_status_def step1 fr(2) using u fr(1)
        by (auto simp: fr(2) split: if_splits)
    next
      case st: (Inr st)
      show ?thesis
      proof (cases ?fin)
        case (Inl e)
        then show ?thesis
          unfolding issued_def set_status_def step1 fr(2) using u st fr(1)
          by (auto simp: fr(2) split: if_splits)
      next
        case fin: (Inr fin)
        let ?data = "[(''status'', JStr status), (''updated'', JStr u)]
                       @ (if truthy_str started then [(''started'', JStr st)] else [])
                       @ (if truthy_str finished then [(''finished'', JStr fin)] else [])"
        have "set_status job_id status updated started finished s = ejr_update job_id (JObj ?data) s1"
          unfolding set_status_def step1 fr(2) using u st fin
          by (auto simp: fr(2) split: if_splits)
        then have i: "issued (set_status job_id status updated started finished) s
                   = issued (ejr_update job_id (JObj ?data)) s1"
          using fr(1) by (simp add: issued_def)
        have "issued (set_status job_id status updated started finished) s
              = (case fst (request_headers True s1) of
                   Inl e \<Rightarrow> []
                 | Inr h \<Rightarrow> [built_request s ''PATCH'' (''/jobs/'' @ job_id) (Some (JObj ?data)) h])"
          unfolding i issued_update fr(3) by (rule refl)
        then show ?thesis
          unfolding u st fin sum.case s1_def .
      qed
    qed
  qed
qed

text \<open>
  Claim C3.  Each of the seven mutating operations hands the session exactly the one
  request of the update primitive (none only when a timestamp is refused or the token
  cannot be had): a \<^verbatim>\<open>PATCH\<close> of the one job's path whose payload holds exactly the
  fields being set, \<open>status\<close> and \<open>updated\<close> (and \<open>started\<close>, \<open>finished\<close> when given)
  for \<^verbatim>\<open>set_status\<close>, and the single field (two for \<^verbatim>\<open>remove_dependencies\<close>) for the
  others.  No payload is a whole record.
\<close>

theorem mutations_are_partial_updates:
  "issued (set_status job_id status updated started finished) s =
     (case (if truthy_str updated then env_rfc3339_datetime s (the updated)
            else Inr (env_utcnow_at s (tick s))) of
        Inl e \<Rightarrow> []
      | Inr u \<Rightarrow>
          (case (if truthy_str started then env_rfc3339_datetime s (the started) else Inr []) of
             Inl e \<Rightarrow> []
           | Inr st \<Rightarrow>
               (case (if truthy_str finished then env_rfc3339_datetime s (the finished) else Inr []) of
                  Inl e \<Rightarrow> []
                | Inr fin \<Rightarrow>
                    (case fst (request_headers True
                                 (if truthy_str updated then s else s\<lparr>tick := Suc (tick s)\<rparr>)) of
                       Inl e \<Rightarrow> []
                     | Inr h \<Rightarrow>
                         [built_request s ''PATCH'' (''/jobs/'' @ job_id)
                            (Some (JObj ([(''status'', JStr status), (''updated'', JStr u)]
                                         @ (if truthy_str started then [(''started'', JStr st)] else [])
                                         @ (if truthy_str finished then [(''finished'', JStr fin)] else []))))
                            h]))))
   \<and> issued (set_dependencies job_id dependencies) s =
       (case fst (request_headers True s) of
          Inl e \<Rightarrow> []
        | Inr h \<Rightarrow>
            [built_request s ''PATCH'' (''/jobs/'' @ job_id)
               (Some (JObj [(''dependencies'', json_dependencies dependencies)])) h])
   \<and> issued (remove_dependencies job_id) s =
       (case fst (request_headers True s) of
          Inl e \<Rightarrow> []
        | Inr h \<Rightarrow>
            [built_request s ''PATCH'' (''/jobs/'' @ job_id)
               (Some (JObj [(''dependencies'', JNull), (''dependency_status'', JNull)])) h])
   \<and> issued (set_dependency_status job_id dependency_status) s =
       (case fst (request_headers True s) of
          Inl e \<Rightarrow> []
        | Inr h \<Rightarrow>
            [built_request s ''PATCH'' (''/jobs/'' @ job_id)
               (Some (JObj [(''dependency_status'', JStr dependency_status)])) h])
   \<and> issued (set_dependency_usage job_id dependency_usage) s =
       (case fst (request_headers True s) of
          Inl e \<Rightarrow> []
        | Inr h \<Rightarrow>
            [built_request s ''PATCH'' (''/jobs/'' @ job_id)
               (Some (JObj [(''dependency_usage'',
                              JStr (decimal_str (env_decimal_capitals s) dependency_usage))])) h])
   \<and> issued (set_proxy_user job_id proxy_user) s =
       (case fst (request_headers True s) of
          Inl e \<Rightarrow> []
        | Inr h \<Rightarrow>
            [built_request s ''PATCH'' (''/jobs/'' @ job_id)
               (Some (JObj [(''proxy_user'', JStr proxy_user)])) h])
   \<and> issued (set_application_id job_id application_id) s =
       (case fst (request_headers True s) of
          Inl e \<Rightarrow> []
        | Inr h \<Rightarrow>
            [built_request s ''PATCH'' (''/jobs/'' @ job_id)
               (Some (JObj [(''application_id'', JStr application_id)])) h])
   \<and> (list_all (partial_update_of s job_id
               ([''status'', ''updated''] @ (if truthy_str started then [''started''] else [])
                @ (if truthy_str finished then [''finished''] else [])))
            (issued (set_status job_id status updated started finished) s)
    \<and> length (issued (set_status job_id status updated started finished) s) \<le> 1)
   \<and> (list_all (partial_update_of s job_id [''dependencies''])
         (issued (set_dependencies job_id dependencies) s)
       \<and> length (issued (set_dependencies job_id dependencies) s) \<le> 1)
   \<and> (list_all (partial_update_of s job_id [''dependencies'', ''dependency_status''])
         (issued (remove_dependencies job_id) s)
       \<and> length (issued (remove_dependencies job_id) s) \<le> 1)
   \<and> (list_all (partial_update_of s job_id [''dependency_status''])
         (issued (set_dependency_status job_id dependency_status) s)
       \<and> length (issued (set_dependency_status job_id dependency_status) s) \<le> 1)
   \<and> (list_all (partial_update_of s job_id [''dependency_usage''])
         (issued (set_dependency_usage job_id dependency_usage) s)
       \<and> length (issued (set_dependency_usage job_id dependency_usage) s) \<le> 1)
   \<and> (list_all (partial_update_of s job_id [''proxy_user''])
         (issued (set_proxy_user job_id proxy_user) s)
       \<and> length (issued (set_proxy_user job_id proxy_user) s) \<le> 1)
   \<and> (list_all (partial_update_of s job_id [''application_id''])
         (issued (set_application_id job_id application_id) s)
       \<and> length (issued (set_application_id job_id application_id) s) \<le> 1)"
proof -
  have a: "issued (set_dependencies job_id dependencies) s
           = issued (ejr_update job_id (JObj [(''dependencies'', json_dependencies dependencies)])) s"
    by (simp add: issued_def set_dependencies_def)
  have b: "issued (remove_dependencies job_id) s
           = issued (ejr_update job_id (JObj [(''dependencies'', JNull), (''dependency_status'', JNull)])) s"
    by (simp add: issued_def remove_dependencies_def)
  have c: "issued (set_dependency_status job_id dependency_status) s
           = issued (ejr_update job_id (JObj [(''dependency_status'', JStr dependency_status)])) s"
    by (simp add: issued_def set_dependency_status_def)
  have d: "issued (set_dependency_usage job_id dependency_usage) s
           = issued (ejr_update job_id
               (JObj [(''dependency_usage'',
                       JStr (decimal_str (env_decimal_capitals s) dependency_usage))])) s"
    by (simp add: issued_def set_dependency_usage_def)
  have e: "issued (set_proxy_user job_id proxy_user) s
           = issued (ejr_update job_id (JObj [(''proxy_user'', JStr proxy_user)])) s"
    by (simp add: issued_def set_proxy_user_def)
  have f: "issued (set_application_id job_id application_id) s
           = issued (ejr_update job_id (JObj [(''application_id'', JStr application_id)])) s"
    by (simp add: issued_def set_application_id_def)
  note u = issued_update[of job_id _ s]
  note p = update_is_partial[of s job_id]
  show ?thesis
    apply (intro conjI)
                        apply (rule set_status_issued_exact)
                       apply (simp only: a u)
                      apply (simp only: b u)
                     apply (simp only: c u)
                    apply (simp only: d u)
                   apply (simp only: e u)
                  apply (simp only: f u)
                 apply (rule set_status_issued[THEN conjunct1])
                apply (rule set_status_issued[THEN conjunct2])
    using p[of "[(''dependencies'', json_dependencies dependencies)]"]
      p[of "[(''dependencies'', JNull), (''dependency_status'', JNull)]"]
      p[of "[(''dependency_status'', JStr dependency_status)]"]
      p[of "[(''dependency_usage'', JStr (decimal_str (env_decimal_capitals s) dependency_usage))]"]
      p[of "[(''proxy_user'', JStr proxy_user)]"]
      p[of "[(''application_id'', JStr application_id)]"]
    unfolding a b c d e f
    by simp_all
qed

lemmas op_defs =
  issued_def ejr_update_def ejr_search_def utcnow_def generate_job_id_def generate_unique_id_def
  built_request_def payload_keys_def payload_field_def REQUEST_TIMEOUT_def

theorem mutations_are_partial_updates_witness:
  "map payload_keys
       (issued (set_status ''j-1'' ''running'' None (Some ''2024-05-01T10:00:00Z'') None)
          (canned_registry (Inr (canned_response 200 ''OK'' (JObj [])))))
     = [[''status'', ''updated'', ''started'']]
   \<and> map payload_keys
       (issued (set_dependencies ''j-1'' [[(''batch_request_id'', ''b-7'')]])
          (canned_registry (Inr (canned_response 200 ''OK'' (JObj [])))))
     = [[''dependencies'']]
   \<and> map payload_keys
       (issued (remove_dependencies ''j-1'')
          (canned_registry (Inr (canned_response 200 ''OK'' (JObj [])))))
     = [[''dependencies'', ''dependency_status'']]
   \<and> map payload_keys
       (issued (set_dependency_status ''j-1'' ''awaiting'')
          (canned_registry (Inr (canned_response 200 ''OK'' (JObj [])))))
     = [[''dependency_status'']]
   \<and> map payload_keys
       (issued (set_dependency_usage ''j-1'' (Finite False 15 (- 1)))
          (canned_registry (Inr (canned_response 200 ''OK'' (JObj [])))))
     = [[''dependency_usage'']]
   \<and> map payload_keys
       (issued (set_proxy_user ''j-1'' ''alice'')
          (canned_registry (Inr (canned_response 200 ''OK'' (JObj [])))))
     = [[''proxy_user'']]
   \<and> map payload_keys
       (issued (set_application_id ''j-1'' ''application_1'')
          (canned_registry (Inr (canned_response 200 ''OK'' (JObj [])))))
     = [[''application_id'']]
   \<and> map req_url
       (issued (set_application_id ''j-1'' ''application_1'')
          (canned_registry (Inr (canned_response 200 ''OK'' (JObj [])))))
     = [''https://ejr.test/jobs/j-1'']"
proof -
  let ?s = "canned_registry (Inr (canned_response 200 ''OK'' (JObj [])))"
  have h: "fst (request_headers True ?s) = Inr [(''Authorization'', ''Bearer token'')]"
    by (simp add: run_defs)
  have h': "fst (request_headers True (?s\<lparr>tick := Suc (tick ?s)\<rparr>))
            = Inr [(''Authorization'', ''Bearer token'')]"
    by (simp add: run_defs)
  have t: "truthy_str None = False" "truthy_str (Some ''2024-05-01T10:00:00Z'') = True"
    by (simp_all add: truthy_str_def)
  have r: "env_rfc3339_datetime ?s (the (Some ''2024-05-01T10:00:00Z'')) = Inr ''2024-05-01T10:00:00Z''"
    by (simp add: canned_registry_def)
  note m = mutations_are_partial_updates[of "''j-1''" _ _ _ _ ?s]
  have 1: "map payload_keys
       (issued (set_status ''j-1'' ''running'' None (Some ''2024-05-01T10:00:00Z'') None) ?s)
     = [[''status'', ''updated'', ''started'']]"
    using m[of "''running''" None "Some ''2024-05-01T10:00:00Z''" None, THEN conjunct1] h' t r
    by (simp add: payload_keys_def built_request_def)
  have 2: "map payload_keys (issued (set_dependencies ''j-1'' [[(''batch_request_id'', ''b-7'')]]) ?s)
     = [[''dependencies'']]"
    using m[where dependencies="[[(''batch_request_id'', ''b-7'')]]", THEN conjunct2, THEN conjunct1] h
    by (simp add: payload_keys_def built_request_def)
  have 3: "map payload_keys (issued (remove_dependencies ''j-1'') ?s)
     = [[''dependencies'', ''dependency_status'']]"
    using m[THEN conjunct2, THEN conjunct2, THEN conjunct1] h
    by (simp add: payload_keys_def built_request_def)
  have 4: "map payload_keys (issued (set_dependency_status ''j-1'' ''awaiting'') ?s)
     = [[''dependency_status'']]"
    using m[where dependency_status="''awaiting''",
        THEN conjunct2, THEN conjunct2, THEN conjunct2, THEN conjunct1] h
    by (simp add: payload_keys_def built_request_def)
  have 5: "map payload_keys (issued (set_dependency_usage ''j-1'' (Finite False 15 (- 1))) ?s)
     = [[''dependency_usage'']]"
    using m[where dependency_usage="Finite False 15 (- 1)",
        THEN conjunct2, THEN conjunct2, THEN conjunct2, THEN conjunct2, THEN conjunct1] h
    by (simp add: payload_keys_def built_request_def)
  have 6: "map payload_keys (issued (set_proxy_user ''j-1'' ''alice'') ?s) = [[''proxy_user'']]"
    using m[where proxy_user="''alice''",
        THEN conjunct2, THEN conjunct2, THEN conjunct2, THEN conjunct2, THEN conjunct2,
        THEN conjunct1] h
    by (simp add: payload_keys_def built_request_def)
  have 7: "issued (set_application_id ''j-1'' ''application_1'') ?s
     = [built_request ?s ''PATCH'' (''/jobs/'' @ ''j-1'')
          (Some (JObj [(''application_id'', JStr ''application_1'')]))
          [(''Authorization'', ''Bearer token'')]]"
    using m[where application_id="''application_1''",
        THEN conjunct2, THEN conjunct2, THEN conjunct2, THEN conjunct2, THEN conjunct2,
        THEN conjunct2, THEN conjunct1] h
    by simp
  have 8: "map payload_keys (issued (set_application_id ''j-1'' ''application_1'') ?s)
     = [[''application_id'']]"
    unfolding 7 by (simp add: payload_keys_def built_request_def)
  have 9: "map req_url (issued (set_application_id ''j-1'' ''application_1'') ?s)
     = [''https://ejr.test/jobs/j-1'']"
    unfolding 7 by (simp add: built_request_def canned_registry_def)
  from 1 2 3 4 5 6 8 9 show ?thesis by simp
qed

text \<open>
  Claim C4.  \<^verbatim>\<open>remove_dependencies\<close> hands over exactly one request once the headers are
  there (none if the token cannot be had): a \<^verbatim>\<open>PATCH\<close> of the job whose payload sets both
  \<open>dependencies\<close> and \<open>dependency_status\<close> to null.  Merged into any stored record, that
  payload leaves both fields null.
\<close>
theorem remove_dependencies_clears_both:
  "issued (remove_dependencies job_id) s =
     (case fst (request_headers True s) of
        Inl err \<Rightarrow> []
      | Inr headers \<Rightarrow>
          [built_request s ''PATCH'' (''/jobs/'' @ job_id)
             (Some (JObj [(''dependencies'', JNull), (''dependency_status'', JNull)])) headers])
   \<and> map_of (merge_fields [(''dependencies'', JNull), (''dependency_status'', JNull)] stored)
        ''dependencies'' = Some JNull
   \<and> map_of (merge_fields [(''dependencies'', JNull), (''dependency_status'', JNull)] stored)
        ''dependency_status'' = Some JNull"
proof -
  have "issued (remove_dependencies job_id) s
        = issued (ejr_update job_id (JObj [(''dependencies'', JNull), (''dependency_status'', JNull)])) s"
    by (simp add: issued_def remove_dependencies_def)
  then show ?thesis
    by (simp add: issued_update merge_fields_def update_conv')
qed

theorem remove_dependencies_clears_both_witness:
  "issued (remove_dependencies ''j-1'') (canned_registry (Inr (canned_response 200 ''OK'' (JObj [])))) =
     [\<lparr>req_method = ''PATCH'', req_url = ''https://ejr.test/jobs/j-1'',
       req_json = Some (JObj [(''dependencies'', JNull), (''dependency_status'', JNull)]),
       req_headers = [(''Authorization'', ''Bearer token'')], req_timeout = 20\<rparr>]
   \<and> map_of (merge_fields [(''dependencies'', JNull), (''dependency_status'', JNull)]
               [(''job_id'', JStr ''j-1''), (''dependencies'', JList [JObj [(''batch'', JStr ''b-7'')]]),
                (''dependency_status'', JStr ''awaiting'')])
        ''dependency_status'' = Some JNull"
proof -
  let ?s = "canned_registry (Inr (canned_response 200 ''OK'' (JObj [])))"
  have h: "fst (request_headers True ?s) = Inr [(''Authorization'', ''Bearer token'')]"
    by (simp add: run_defs)
  from remove_dependencies_clears_both[of "''j-1''" ?s
      "[(''job_id'', JStr ''j-1''), (''dependencies'', JList [JObj [(''batch'', JStr ''b-7'')]]),
        (''dependency_status'', JStr ''awaiting'')]"] h
  show ?thesis
    by (simp add: built_request_def REQUEST_TIMEOUT_def canned_registry_def)
qed


lemma do_request_rejects_other_status:
  assumes "fst (request_headers a s) = Inr h"
    and "env_respond s (sent s) (built_request s m p b h) = Inr response"
    and "status_code response \<noteq> e" and "e \<noteq> 0"
  shows "fst (do_request m p b a (Some e) s) = Inl (from_response response)"
proof -
  obtain s1 where "request_headers a s = (Inr h, s1)"
    using assms(1) by (cases "request_headers a s") auto
  with assms(2-4) show ?thesis
    by (simp add: do_request_unfold truthy_int_def)
qed

text \<open>
  Claim C2.  With a backend id, \<^verbatim>\<open>create_job\<close> is one \<^verbatim>\<open>POST\<close> to \<^verbatim>\<open>/jobs\<close> that
  expects status 201 (any other status of the answer ends in the error built from the
  response).  The submitted record has the given job id, or a generated one when none (or
  an empty one) is given, status \<open>created\<close>, and \<open>created\<close> and \<open>updated\<close> both equal to
  the one reading of the clock.
\<close>
theorem create_job_initial_record:
  assumes "backend_id s = Inr b"
  shows "\<exists>d s'.
      create_job process user_id job_id title description parent_id api_version job_options s
        = do_request ''POST'' ''/jobs'' (Some (JObj d)) True (Some 201) s'
      \<and> map_of d ''job_id'' =
          Some (JStr (case job_id of
                        None \<Rightarrow> fst (generate_job_id s)
                      | Some j \<Rightarrow> if j = [] then fst (generate_job_id s) else j))
      \<and> map_of d ''status'' = Some (JStr ''created'')
      \<and> map_of d ''created'' = Some (JStr (env_utcnow_at s (tick s)))
      \<and> map_of d ''updated'' = Some (JStr (env_utcnow_at s (tick s)))
      \<and> issued (create_job process user_id job_id title description parent_id api_version job_options) s
          = (case fst (request_headers True s') of
               Inl err \<Rightarrow> []
             | Inr headers \<Rightarrow> [built_request s ''POST'' ''/jobs'' (Some (JObj d)) headers])
      \<and> (\<forall>headers response.
            fst (request_headers True s') = Inr headers
            \<and> env_respond s (sent s) (built_request s ''POST'' ''/jobs'' (Some (JObj d)) headers)
                = Inr response
            \<and> status_code response \<noteq> 201
            \<longrightarrow> fst (create_job process user_id job_id title description parent_id api_version
                       job_options s) = Inl (from_response response))"
proof -
  let ?gen = "case job_id of
                None \<Rightarrow> generate_job_id s
              | Some j \<Rightarrow> if j = [] then generate_job_id s else (j, s)"
  obtain jid s1 where g: "?gen = (jid, s1)" by (cases ?gen)
  have jid: "jid = (case job_id of
                        None \<Rightarrow> fst (generate_job_id s)
                      | Some j \<Rightarrow> if j = [] then fst (generate_job_id s) else j)"
    using g by (auto split: option.splits if_splits)
  have fr1: "sent s1 = sent s" "tick s1 = tick s" "env_utcnow_at s1 = env_utcnow_at s"
    "self_backend_id s1 = self_backend_id s" "env_url_join s1 = env_url_join s"
    "self_api_url s1 = self_api_url s" "env_respond s1 = env_respond s"
    using g by (auto simp: generate_job_id_def generate_unique_id_def split: option.splits if_splits)
  let ?s2 = "s1\<lparr>tick := Suc (tick s1)\<rparr>"
  let ?now = "env_utcnow_at s (tick s)"
  let ?d = "[(''backend_id'', JStr b),
             (''user_id'', JStr user_id),
             (''job_id'', JStr jid),
             (''process'', process),
             (''title'', json_opt_str title),
             (''description'', json_opt_str description),
             (''status'', JStr JOB_STATUS_CREATED),
             (''created'', JStr ?now),
             (''updated'', JStr ?now),
             (''job_options'', json_opt job_options),
             (''parent_id'', json_opt_str parent_id),
             (''application_id'', JNull),
             (''api_version'', json_opt_str api_version)]"
  have b2: "backend_id ?s2 = Inr b"
    using assms fr1 by (simp add: backend_id_def)
  have eq: "create_job process user_id job_id title description parent_id api_version job_options s
        = do_request ''POST'' ''/jobs'' (Some (JObj ?d)) True (Some 201) ?s2"
    using g b2 fr1 by (simp add: create_job_def utcnow_def)
  have fr2: "sent ?s2 = sent s" "env_url_join ?s2 = env_url_join s" "self_api_url ?s2 = self_api_url s"
    "env_respond ?s2 = env_respond s"
    using fr1 by simp_all
  have br: "\<And>h. built_request ?s2 ''POST'' ''/jobs'' (Some (JObj ?d)) h
                 = built_request s ''POST'' ''/jobs'' (Some (JObj ?d)) h"
    using fr1 by (simp add: built_request_def)
  have iss: "issued (create_job process user_id job_id title description parent_id api_version job_options) s
          = (case fst (request_headers True ?s2) of
               Inl err \<Rightarrow> []
             | Inr headers \<Rightarrow> [built_request s ''POST'' ''/jobs'' (Some (JObj ?d)) headers])"
  proof -
    have "issued (create_job process user_id job_id title description parent_id api_version job_options) s
          = issued (do_request ''POST'' ''/jobs'' (Some (JObj ?d)) True (Some 201)) ?s2"
      using eq fr2(1) by (simp add: issued_def)
    then show ?thesis by (simp add: do_request_issued br split: sum.splits)
  qed
  have rej: "\<forall>headers response.
            fst (request_headers True ?s2) = Inr headers
            \<and> env_respond s (sent s) (built_request s ''POST'' ''/jobs'' (Some (JObj ?d)) headers)
                = Inr response
            \<and> status_code response \<noteq> 201
            \<longrightarrow> fst (create_job process user_id job_id title description parent_id api_version
                       job_options s) = Inl (from_response response)"
  proof (intro allI impI, elim conjE)
    fix headers response
    assume h: "fst (request_headers True ?s2) = Inr headers"
      and r: "env_respond s (sent s) (built_request s ''POST'' ''/jobs'' (Some (JObj ?d)) headers)
                = Inr response"
      and st: "status_code response \<noteq> 201"
    have r': "env_respond ?s2 (sent ?s2) (built_request ?s2 ''POST'' ''/jobs'' (Some (JObj ?d)) headers)
                = Inr response"
      using r fr1 by (simp add: built_request_def)
    show "fst (create_job process user_id job_id title description parent_id api_version
                       job_options s) = Inl (from_response response)"
      unfolding eq by (rule do_request_rejects_other_status[OF h r' st]) simp
  qed
  have m: "map_of ?d ''job_id'' = Some (JStr jid)" "map_of ?d ''status'' = Some (JStr ''created'')"
    "map_of ?d ''created'' = Some (JStr ?now)" "map_of ?d ''updated'' = Some (JStr ?now)"
    by (simp_all add: JOB_STATUS_CREATED_def)
  show ?thesis
    apply (rule exI[of _ ?d])
    apply (rule exI[of _ ?s2])
    using eq m iss rej unfolding jid[symmetric]
    apply (intro conjI)
    apply assumption+
    done
qed


theorem create_job_initial_record_witness:
  "backend_id (canned_registry (Inr (canned_response 201 ''Created'' (JObj [(''job_id'', JStr ''j-0'')]))))
     = Inr ''test''
   \<and> map payload_keys
       (issued (create_job (JObj [(''process_graph'', JObj [])]) ''alice'' None None None None None None)
          (canned_registry (Inr (canned_response 201 ''Created'' (JObj [(''job_id'', JStr ''j-0'')])))))
     = [[''backend_id'', ''user_id'', ''job_id'', ''process'', ''title'', ''description'', ''status'',
         ''created'', ''updated'', ''job_options'', ''parent_id'', ''application_id'', ''api_version'']]
   \<and> map (\<lambda>r. map (payload_field r) [''job_id'', ''status'', ''created'', ''updated''])
       (issued (create_job (JObj [(''process_graph'', JObj [])]) ''alice'' None None None None None None)
          (canned_registry (Inr (canned_response 201 ''Created'' (JObj [(''job_id'', JStr ''j-0'')])))))
     = [[Some (JStr ''j-0''), Some (JStr ''created''), Some (JStr ''2024-05-01T10:00:00Z''),
         Some (JStr ''2024-05-01T10:00:00Z'')]]
   \<and> fst (create_job (JObj [(''process_graph'', JObj [])]) ''alice'' None None None None None None
            (canned_registry (Inr (canned_response 201 ''Created'' (JObj [(''job_id'', JStr ''j-0'')])))))
     = Inr (JObj [(''job_id'', JStr ''j-0'')])
   \<and> fst (create_job (JObj [(''process_graph'', JObj [])]) ''alice'' None None None None None None
            (canned_registry (Inr (canned_response 200 ''OK'' (JObj [(''job_id'', JStr ''j-0'')])))))
     = Inl (from_response (canned_response 200 ''OK'' (JObj [(''job_id'', JStr ''j-0'')])))"
proof -
  let ?s = "canned_registry (Inr (canned_response 201 ''Created'' (JObj [(''job_id'', JStr ''j-0'')])))"
  let ?t = "canned_registry (Inr (canned_response 200 ''OK'' (JObj [(''job_id'', JStr ''j-0'')])))"
  let ?p = "JObj [(''process_graph'', JObj [])]"
  have n: "nat_str 0 = ''0''" by code_simp
  have b: "backend_id ?s = Inr ''test''" by (simp add: run_defs)
  have bt: "backend_id ?t = Inr ''test''" by (simp add: run_defs)
  have k: "map payload_keys (issued (create_job ?p ''alice'' None None None None None None) ?s)
     = [[''backend_id'', ''user_id'', ''job_id'', ''process'', ''title'', ''description'', ''status'',
         ''created'', ''updated'', ''job_options'', ''parent_id'', ''application_id'', ''api_version'']]"
    by (simp add: create_job_def op_defs run_defs)
  have ok: "fst (create_job ?p ''alice'' None None None None None None ?s)
     = Inr (JObj [(''job_id'', JStr ''j-0'')])"
    by (simp add: create_job_def op_defs run_defs)
  from create_job_initial_record[OF b, of ?p "''alice''" None None None None None None]
  obtain d s' where
    iss: "issued (create_job ?p ''alice'' None None None None None None) ?s
          = (case fst (request_headers True s') of
               Inl err \<Rightarrow> []
             | Inr headers \<Rightarrow> [built_request ?s ''POST'' ''/jobs'' (Some (JObj d)) headers])"
    and m: "map_of d ''job_id'' = Some (JStr (fst (generate_job_id ?s)))"
      "map_of d ''status'' = Some (JStr ''created'')"
      "map_of d ''created'' = Some (JStr (env_utcnow_at ?s (tick ?s)))"
      "map_of d ''updated'' = Some (JStr (env_utcnow_at ?s (tick ?s)))"
    by auto
  from k iss obtain h where
    one: "issued (create_job ?p ''alice'' None None None None None None) ?s
          = [built_request ?s ''POST'' ''/jobs'' (Some (JObj d)) h]"
    by (cases "fst (request_headers True s')") auto
  have g: "fst (generate_job_id ?s) = ''j-0''" "env_utcnow_at ?s (tick ?s) = ''2024-05-01T10:00:00Z''"
    by (simp_all add: generate_job_id_def generate_unique_id_def canned_registry_def n)
  have f: "map (\<lambda>r. map (payload_field r) [''job_id'', ''status'', ''created'', ''updated''])
       (issued (create_job ?p ''alice'' None None None None None None) ?s)
     = [[Some (JStr ''j-0''), Some (JStr ''created''), Some (JStr ''2024-05-01T10:00:00Z''),
         Some (JStr ''2024-05-01T10:00:00Z'')]]"
    unfolding one using m g by (simp add: payload_field_def built_request_def)
  from create_job_initial_record[OF bt, of ?p "''alice''" None None None None None None]
  obtain d' t' where
    iss': "issued (create_job ?p ''alice'' None None None None None None) ?t
          = (case fst (request_headers True t') of
               Inl err \<Rightarrow> []
             | Inr headers \<Rightarrow> [built_request ?t ''POST'' ''/jobs'' (Some (JObj d')) headers])"
    and rej: "\<And>headers response.
            fst (request_headers True t') = Inr headers \<Longrightarrow>
            env_respond ?t (sent ?t) (built_request ?t ''POST'' ''/jobs'' (Some (JObj d')) headers)
                = Inr response \<Longrightarrow>
            status_code response \<noteq> 201 \<Longrightarrow>
            fst (create_job ?p ''alice'' None None None None None None ?t) = Inl (from_response response)"
    by blast
  have lt: "length (issued (create_job ?p ''alice'' None None None None None None) ?t) = 1"
    by (simp add: create_job_def op_defs run_defs)
  from lt iss' obtain h' where h': "fst (request_headers True t') = Inr h'"
    by (cases "fst (request_headers True t')") auto
  have "fst (create_job ?p ''alice'' None None None None None None ?t)
     = Inl (from_response (canned_response 200 ''OK'' (JObj [(''job_id'', JStr ''j-0'')])))"
    by (rule rej[OF h']) (simp_all add: canned_registry_def canned_response_def)
  with b k f ok show ?thesis by simp
qed


lemma set_list_of_set: "set (list_of_set order xs) = set xs"
  by (simp add: list_of_set_def Let_def)

lemma search_sent:
  "sent (snd (ejr_search q f s)) =
     sent s @ (case fst (request_headers True s) of
                 Inl err \<Rightarrow> []
               | Inr h \<Rightarrow>
                   [built_request s ''POST'' ''/jobs/search''
                      (Some (JObj
                         [(''query'', q),
                          (''_source'',
                             JList (map JStr
                               (list_of_set (env_set_order s)
                                  ((case f of None \<Rightarrow> [] | Some fs \<Rightarrow> fs) @ basic_fields))))])) h])"
  unfolding ejr_search_def by (rule do_request_sent)

lemma search_projection:
  "\<forall>r\<in>set (issued (ejr_search q f) s).
     set (map JStr [''job_id'', ''user_id'', ''created'', ''status'', ''updated''])
       \<subseteq> set (source_fields r)"
  unfolding issued_def search_sent
  by (auto simp: source_fields_def payload_field_def built_request_def set_list_of_set
        basic_fields_def split: sum.splits)

lemma get_job_issued:
  "issued (get_job job_id flds) s = [] \<or>
   (\<exists>q f. issued (get_job job_id flds) s = issued (ejr_search q f) s)"
proof (cases "backend_id s")
  case (Inl e)
  then show ?thesis by (simp add: issued_def get_job_def)
next
  case (Inr b)
  let ?q = "bool_filter [term_filter ''backend_id'' (JStr b), term_filter ''job_id'' (JStr job_id)]"
  let ?f = "Some (case flds of None \<Rightarrow> [''*''] | Some fs \<Rightarrow> if fs = [] then [''*''] else fs)"
  have "snd (get_job job_id flds s) = snd (ejr_search ?q ?f s)"
    using Inr by (simp add: get_job_def split: prod.splits sum.splits)
  then have "issued (get_job job_id flds) s = issued (ejr_search ?q ?f) s"
    by (simp add: issued_def)
  then show ?thesis by blast
qed

lemma list_user_jobs_issued:
  "issued (list_user_jobs user_id flds) s = [] \<or>
   (\<exists>q f. issued (list_user_jobs user_id flds) s = issued (ejr_search q f) s)"
  by (cases "backend_id s") (auto simp: issued_def list_user_jobs_def)

lemma list_active_jobs_issued:
  "issued (list_active_jobs max_age flds) s = [] \<or>
   (\<exists>q f. issued (list_active_jobs max_age flds) s = issued (ejr_search q f) s)"
  by (cases "backend_id s") (auto simp: issued_def list_active_jobs_def)

lemma search_issued:
  "issued (ejr_search q f) s =
     (case fst (request_headers True s) of
        Inl err \<Rightarrow> []
      | Inr h \<Rightarrow>
          [built_request s ''POST'' ''/jobs/search''
             (Some (JObj
                [(''query'', q),
                 (''_source'',
                    JList (map JStr
                      (list_of_set (env_set_order s)
                         ((case f of None \<Rightarrow> [] | Some fs \<Rightarrow> fs)
                          @ [''job_id'', ''user_id'', ''created'', ''status'', ''updated'']))))])) h])"
  unfolding issued_def search_sent basic_fields_def by simp

lemma get_job_issued_exact:
  "issued (get_job job_id flds) s =
     (case backend_id s of
        Inl e \<Rightarrow> []
      | Inr b \<Rightarrow>
          (case fst (request_headers True s) of
             Inl e \<Rightarrow> []
           | Inr h \<Rightarrow>
               [built_request s ''POST'' ''/jobs/search''
                  (Some (JObj
                     [(''query'',
                         bool_filter [term_filter ''backend_id'' (JStr b),
                                      term_filter ''job_id'' (JStr job_id)]),
                      (''_source'',
                         JList (map JStr
                           (list_of_set (env_set_order s)
                              ((case flds of None \<Rightarrow> [''*'']
                                | Some fs \<Rightarrow> if fs = [] then [''*''] else fs)
                               @ [''job_id'', ''user_id'', ''created'', ''status'', ''updated'']))))]))
                  h]))"
proof (cases "backend_id s")
  case (Inl e)
  then show ?thesis by (simp add: issued_def get_job_def)
next
  case (Inr b)
  let ?q = "bool_filter [term_filter ''backend_id'' (JStr b), term_filter ''job_id'' (JStr job_id)]"
  let ?f = "Some (case flds of None \<Rightarrow> [''*''] | Some fs \<Rightarrow> if fs = [] then [''*''] else fs)"
  have "snd (get_job job_id flds s) = snd (ejr_search ?q ?f s)"
    using Inr by (simp add: get_job_def split: prod.splits sum.splits)
  then have "issued (get_job job_id flds) s = issued (ejr_search ?q ?f) s"
    by (simp add: issued_def)
  then show ?thesis
    unfolding search_issued using Inr by (simp split: sum.splits)
qed

lemma list_user_jobs_issued_exact:
  "issued (list_user_jobs user_id flds) s =
     (case backend_id s of
        Inl e \<Rightarrow> []
      | Inr b \<Rightarrow>
          (case fst (request_headers True s) of
             Inl e \<Rightarrow> []
           | Inr h \<Rightarrow>
               [built_request s ''POST'' ''/jobs/search''
                  (Some (JObj
                     [(''query'',
                         bool_filter [term_filter ''backend_id'' (JStr b),
                                      term_filter ''user_id'' (json_opt_str user_id)]),
                      (''_source'',
                         JList (map JStr
                           (list_of_set (env_set_order s)
                              ((case flds of None \<Rightarrow> [] | Some fs \<Rightarrow> fs)
                               @ [''job_id'', ''user_id'', ''created'', ''status'', ''updated'']))))]))
                  h]))"
proof (cases "backend_id s")
  case (Inl e)
  then show ?thesis by (simp add: issued_def list_user_jobs_def)
next
  case (Inr b)
  let ?q = "bool_filter [term_filter ''backend_id'' (JStr b),
                         term_filter ''user_id'' (json_opt_str user_id)]"
  have "issued (list_user_jobs user_id flds) s = issued (ejr_search ?q flds) s"
    using Inr by (simp add: issued_def list_user_jobs_def)
  then show ?thesis
    unfolding search_issued using Inr by (simp split: sum.splits)
qed

lemma list_active_jobs_issued_exact:
  "issued (list_active_jobs max_age flds) s =
     (case backend_id s of
        Inl e \<Rightarrow> []
      | Inr b \<Rightarrow>
          (case fst (request_headers True s) of
             Inl e \<Rightarrow> []
           | Inr h \<Rightarrow>
               [built_request s ''POST'' ''/jobs/search''
                  (Some (JObj
                     [(''query'',
                         bool_filter
                           [term_filter ''backend_id'' (JStr b),
                            JObj [(''terms'',
                               JObj [(''status'',
                                  JList [JStr ''created'', JStr ''queued'', JStr ''running''])])],
                            JObj [(''range'',
                               JObj [(''created'',
                                  JObj [(''gte'',
                                     JStr (''now-''
                                           @ int_str (case max_age of
                                                        None \<Rightarrow> 7
                                                      | Some days \<Rightarrow> if days = 0 then 7 else days)
                                           @ ''d''))])])]]),
                      (''_source'',
                         JList (map JStr
                           (list_of_set (env_set_order s)
                              ((case flds of None \<Rightarrow> [] | Some fs \<Rightarrow> fs)
                               @ [''job_id'', ''user_id'', ''created'', ''status'', ''updated'']))))]))
                  h]))"
proof (cases "backend_id s")
  case (Inl e)
  then show ?thesis by (simp add: issued_def list_active_jobs_def)
next
  case (Inr b)
  have d: "(if truthy_int max_age then the max_age else 7)
           = (case max_age of None \<Rightarrow> 7 | Some days \<Rightarrow> if days = 0 then 7 else days)"
    by (simp add: truthy_int_def split: option.splits)
  let ?q = "bool_filter
                           [term_filter ''backend_id'' (JStr b),
                            JObj [(''terms'',
                               JObj [(''status'',
                                  JList [JStr ''created'', JStr ''queued'', JStr ''running''])])],
                            JObj [(''range'',
                               JObj [(''created'',
                                  JObj [(''gte'',
                                     JStr (''now-''
                                           @ int_str (case max_age of
                                                        None \<Rightarrow> 7
                                                      | Some days \<Rightarrow> if days = 0 then 7 else days)
                                           @ ''d''))])])]]"
  have "list_active_jobs max_age flds s = ejr_search ?q flds s"
    using Inr unfolding list_active_jobs_def d
    by (simp add: JOB_STATUS_CREATED_def JOB_STATUS_QUEUED_def JOB_STATUS_RUNNING_def)
  then have "issued (list_active_jobs max_age flds) s = issued (ejr_search ?q flds) s"
    by (simp add: issued_def)
  then show ?thesis
    unfolding search_issued using Inr by (simp split: sum.splits)
qed

text \<open>
  Claim C8.  With a backend id and a token, \<^verbatim>\<open>get_job\<close>, \<^verbatim>\<open>list_user_jobs\<close> and
  \<^verbatim>\<open>list_active_jobs\<close> each hand the session exactly one search request, whose
  \<open>_source\<close> projection lists the requested fields together with \<open>job_id\<close>, \<open>user_id\<close>,
  \<open>created\<close>, \<open>status\<close> and \<open>updated\<close>; whatever fields the caller asks for, those five
  are in the projection of every request sent.
\<close>

theorem search_projects_basic_fields:
  "issued (get_job job_id flds) s =
     (case backend_id s of
        Inl e \<Rightarrow> []
      | Inr b \<Rightarrow>
          (case fst (request_headers True s) of
             Inl e \<Rightarrow> []
           | Inr h \<Rightarrow>
               [built_request s ''POST'' ''/jobs/search''
                  (Some (JObj
                     [(''query'',
                         bool_filter [term_filter ''backend_id'' (JStr b),
                                      term_filter ''job_id'' (JStr job_id)]),
                      (''_source'',
                         JList (map JStr
                           (list_of_set (env_set_order s)
                              ((case flds of None \<Rightarrow> [''*'']
                                | Some fs \<Rightarrow> if fs = [] then [''*''] else fs)
                               @ [''job_id'', ''user_id'', ''created'', ''status'', ''updated'']))))]))
                  h]))
   \<and> issued (list_user_jobs user_id flds) s =
     (case backend_id s of
        Inl e \<Rightarrow> []
      | Inr b \<Rightarrow>
          (case fst (request_headers True s) of
             Inl e \<Rightarrow> []
           | Inr h \<Rightarrow>
               [built_request s ''POST'' ''/jobs/search''
                  (Some (JObj
                     [(''query'',
                         bool_filter [term_filter ''backend_id'' (JStr b),
                                      term_filter ''user_id'' (json_opt_str user_id)]),
                      (''_source'',
                         JList (map JStr
                           (list_of_set (env_set_order s)
                              ((case flds of None \<Rightarrow> [] | Some fs \<Rightarrow> fs)
                               @ [''job_id'', ''user_id'', ''created'', ''status'', ''updated'']))))]))
                  h]))
   \<and> issued (list_active_jobs max_age flds) s =
     (case backend_id s of
        Inl e \<Rightarrow> []
      | Inr b \<Rightarrow>
          (case fst (request_headers True s) of
             Inl e \<Rightarrow> []
           | Inr h \<Rightarrow>
               [built_request s ''POST'' ''/jobs/search''
                  (Some (JObj
                     [(''query'',
                         bool_filter
                           [term_filter ''backend_id'' (JStr b),
                            JObj [(''terms'',
                               JObj [(''status'',
                                  JList [JStr ''created'', JStr ''queued'', JStr ''running''])])],
                            JObj [(''range'',
                               JObj [(''created'',
                                  JObj [(''gte'',
                                     JStr (''now-''
                                           @ int_str (case max_age of
                                                        None \<Rightarrow> 7
                                                      | Some days \<Rightarrow> if days = 0 then 7 else days)
                                           @ ''d''))])])]]),
                      (''_source'',
                         JList (map JStr
                           (list_of_set (env_set_order s)
                              ((case flds of None \<Rightarrow> [] | Some fs \<Rightarrow> fs)
                               @ [''job_id'', ''user_id'', ''created'', ''status'', ''updated'']))))]))
                  h]))
   \<and> (\<forall>r\<in>set (issued (get_job job_id flds) s).
        set (map JStr [''job_id'', ''user_id'', ''created'', ''status'', ''updated''])
          \<subseteq> set (source_fields r))
   \<and> (\<forall>r\<in>set (issued (list_user_jobs user_id flds) s).
        set (map JStr [''job_id'', ''user_id'', ''created'', ''status'', ''updated''])
          \<subseteq> set (source_fields r))
   \<and> (\<forall>r\<in>set (issued (list_active_jobs max_age flds) s).
        set (map JStr [''job_id'', ''user_id'', ''created'', ''status'', ''updated''])
          \<subseteq> set (source_fields r))"
proof (intro conjI)
  show "\<forall>r\<in>set (issued (get_job job_id flds) s).
      set (map JStr [''job_id'', ''user_id'', ''created'', ''status'', ''updated''])
        \<subseteq> set (source_fields r)"
    using get_job_issued[of job_id flds s] search_projection by (elim disjE exE) simp_all
  show "\<forall>r\<in>set (issued (list_user_jobs user_id flds) s).
      set (map JStr [''job_id'', ''user_id'', ''created'', ''status'', ''updated''])
        \<subseteq> set (source_fields r)"
    using list_user_jobs_issued[of user_id flds s] search_projection by (elim disjE exE) simp_all
  show "\<forall>r\<in>set (issued (list_active_jobs max_age flds) s).
      set (map JStr [''job_id'', ''user_id'', ''created'', ''status'', ''updated''])
        \<subseteq> set (source_fields r)"
    using list_active_jobs_issued[of max_age flds s] search_projection by (elim disjE exE) simp_all
qed (rule get_job_issued_exact list_user_jobs_issued_exact list_active_jobs_issued_exact)+

theorem search_projects_basic_fields_witness:
  "map source_fields
     (issued (get_job ''j-1'' (Some [''title'', ''status'']))
        (canned_registry (Inr (canned_response 200 ''OK'' (JList [])))))
     = [[JStr ''title'', JStr ''job_id'', JStr ''user_id'', JStr ''created'', JStr ''status'',
         JStr ''updated'']]
   \<and> map source_fields
       (issued (list_user_jobs (Some ''alice'') None)
          (canned_registry (Inr (canned_response 200 ''OK'' (JList [])))))
     = [[JStr ''job_id'', JStr ''user_id'', JStr ''created'', JStr ''status'', JStr ''updated'']]
   \<and> map source_fields
       (issued (list_active_jobs None (Some [''title'']))
          (canned_registry (Inr (canned_response 200 ''OK'' (JList [])))))
     = [[JStr ''title'', JStr ''job_id'', JStr ''user_id'', JStr ''created'', JStr ''status'',
         JStr ''updated'']]
   \<and> set (map JStr [''job_id'', ''user_id'', ''created'', ''status'', ''updated''])
       \<subseteq> set (source_fields (hd (issued (list_user_jobs (Some ''alice'') None)
                   (canned_registry (Inr (canned_response 200 ''OK'' (JList [])))))))"
proof -
  let ?s = "canned_registry (Inr (canned_response 200 ''OK'' (JList [])))"
  have b: "backend_id ?s = Inr ''test''" by (simp add: run_defs)
  have h: "fst (request_headers True ?s) = Inr [(''Authorization'', ''Bearer token'')]"
    by (simp add: run_defs)
  have o: "env_set_order ?s = (\<lambda>xs. xs)" by (simp add: canned_registry_def)
  note t = search_projects_basic_fields[of _ _ ?s]
  have 1: "map source_fields (issued (get_job ''j-1'' (Some [''title'', ''status''])) ?s)
     = [[JStr ''title'', JStr ''job_id'', JStr ''user_id'', JStr ''created'', JStr ''status'',
         JStr ''updated'']]"
    using t[of "''j-1''" "Some [''title'', ''status'']", THEN conjunct1] b h o
    by (simp add: source_fields_def payload_field_def built_request_def list_of_set_def)
  have 2: "map source_fields (issued (list_user_jobs (Some ''alice'') None) ?s)
     = [[JStr ''job_id'', JStr ''user_id'', JStr ''created'', JStr ''status'', JStr ''updated'']]"
    using t[where user_id="Some ''alice''" and flds=None, THEN conjunct2, THEN conjunct1] b h o
    by (simp add: source_fields_def payload_field_def built_request_def list_of_set_def)
  have 3: "map source_fields (issued (list_active_jobs None (Some [''title''])) ?s)
     = [[JStr ''title'', JStr ''job_id'', JStr ''user_id'', JStr ''created'', JStr ''status'',
         JStr ''updated'']]"
    using t[where max_age=None and flds="Some [''title'']",
        THEN conjunct2, THEN conjunct2, THEN conjunct1] b h o
    by (simp add: source_fields_def payload_field_def built_request_def list_of_set_def)
  from 2 have "hd (issued (list_user_jobs (Some ''alice'') None) ?s)
                 \<in> set (issued (list_user_jobs (Some ''alice'') None) ?s)"
    by (cases "issued (list_user_jobs (Some ''alice'') None) ?s") simp_all
  with t[where user_id="Some ''alice''" and flds=None, THEN conjunct2, THEN conjunct2,
      THEN conjunct2, THEN conjunct2, THEN conjunct1]
  have 4: "set (map JStr [''job_id'', ''user_id'', ''created'', ''status'', ''updated''])
       \<subseteq> set (source_fields (hd (issued (list_user_jobs (Some ''alice'') None) ?s)))"
    by blast
  from 1 2 3 4 show ?thesis by blast
qed

text \<open>
  Claim C9, amended.  The filter of \<^verbatim>\<open>list_active_jobs\<close> has three clauses: the
  registry's backend id, status among \<open>created\<close>, \<open>queued\<close>, \<open>running\<close>, and \<open>created\<close>
  not before \<open>now-Nd\<close>, where \<open>N\<close> is \<open>max_age\<close>, or 7 when \<open>max_age\<close> is not given or is
  zero.
\<close>
theorem list_active_jobs_query:
  assumes "backend_id s = Inr b"
  shows "\<forall>r\<in>set (issued (list_active_jobs max_age flds) s).
     filter_clauses r =
       [JObj [(''term'', JObj [(''backend_id'', JStr b)])],
        JObj [(''terms'', JObj [(''status'', JList [JStr ''created'', JStr ''queued'', JStr ''running''])])],
        JObj [(''range'', JObj [(''created'', JObj [(''gte'',
           JStr (''now-''
                 @ int_str (case max_age of None \<Rightarrow> 7 | Some days \<Rightarrow> if days = 0 then 7 else days)
                 @ ''d''))])])]]"
proof -
  have d: "(if truthy_int max_age then the max_age else 7)
           = (case max_age of None \<Rightarrow> 7 | Some days \<Rightarrow> if days = 0 then 7 else days)"
    by (simp add: truthy_int_def split: option.splits)
  show ?thesis
    using assms unfolding issued_def list_active_jobs_def d
    by (auto simp: search_sent filter_clauses_def payload_field_def built_request_def bool_filter_def
          term_filter_def JOB_STATUS_CREATED_def JOB_STATUS_QUEUED_def JOB_STATUS_RUNNING_def
          split: sum.splits)
qed

theorem list_active_jobs_query_witness:
  "backend_id (canned_registry (Inr (canned_response 200 ''OK'' (JList [])))) = Inr ''test''
   \<and> map range_bound
       (issued (list_active_jobs (Some 3) None) (canned_registry (Inr (canned_response 200 ''OK'' (JList [])))))
     = [Some (JStr ''now-3d'')]
   \<and> map range_bound
       (issued (list_active_jobs None None) (canned_registry (Inr (canned_response 200 ''OK'' (JList [])))))
     = [Some (JStr ''now-7d'')]"
proof -
  let ?s = "canned_registry (Inr (canned_response 200 ''OK'' (JList [])))"
  have b: "backend_id ?s = Inr ''test''" by (simp add: run_defs)
  have n: "int_str 3 = ''3''" "int_str 7 = ''7''" by code_simp+
  have l3: "length (issued (list_active_jobs (Some 3) None) ?s) = 1"
    by (simp add: list_active_jobs_def op_defs run_defs)
  have l7: "length (issued (list_active_jobs None None) ?s) = 1"
    by (simp add: list_active_jobs_def op_defs run_defs)
  from l3 obtain r3 where r3: "issued (list_active_jobs (Some 3) None) ?s = [r3]"
    by (cases "issued (list_active_jobs (Some 3) None) ?s") auto
  from l7 obtain r7 where r7: "issued (list_active_jobs None None) ?s = [r7]"
    by (cases "issued (list_active_jobs None None) ?s") auto
  from list_active_jobs_query[OF b, of "Some 3" None] r3 n
  have 3: "range_bound r3 = Some (JStr ''now-3d'')" by (simp add: range_bound_def)
  from list_active_jobs_query[OF b, of None None] r7 n
  have 7: "range_bound r7 = Some (JStr ''now-7d'')" by (simp add: range_bound_def)
  from b r3 r7 3 7 show ?thesis by simp
qed

text \<open>
  As stated, claim C9 fails for \<open>max_age = 0\<close>: the range clause then reaches back seven
  days, not zero.
\<close>
theorem list_active_jobs_zero_max_age_counterexample:
  "map range_bound
     (issued (list_active_jobs (Some 0) None) (canned_registry (Inr (canned_response 200 ''OK'' (JList [])))))
   = [Some (JStr ''now-7d'')]"
proof -
  have n: "int_str 7 = ''7''" by code_simp
  show ?thesis
    by (simp add: list_active_jobs_def op_defs run_defs truthy_int_def range_bound_def
          filter_clauses_def bool_filter_def term_filter_def n)
qed


text \<open>
  Claim C5, amended.  Once the session has answered: if \<open>expected_status\<close> is truthy and
  differs from the status of the response, the result is the \<^verbatim>\<open>EjrHttpError\<close> whose
  message carries the status code, the reason phrase, the request's method and URL and the
  response text, and whose \<open>status_code\<close> is that of the response.  Otherwise (no expected
  status, or the expected one) the transport's own check applies: an \<^verbatim>\<open>HTTPError\<close> for a
  status from 400 to 599, and for every other status the parsed body of the response.
\<close>
theorem do_request_classifies_response:
  assumes "fst (request_headers use_auth s) = Inr headers"
    and "env_respond s (sent s) (built_request s method path body headers) = Inr response"
  shows "fst (do_request method path body use_auth expected_status s) =
     (if truthy_int expected_status \<and> Some (status_code response) \<noteq> expected_status
      then Inl (EjrHttpError
                 (''EJR API error: '' @ int_str (status_code response) @ '' ''
                  @ repr_str (reason response) @ '' on '' @ [CHR 0x60] @ request_method response
                  @ '' '' @ repr_str (request_url response) @ [CHR 0x60] @ '': ''
                  @ resp_text response)
                 (Some (status_code response)))
      else if 400 \<le> status_code response \<and> status_code response < 600
      then Inl (HTTPError
                 (int_str (status_code response)
                  @ (if status_code response < 500 then '' Client Error: '' else '' Server Error: '')
                  @ reason response @ '' for url: '' @ resp_url response))
      else resp_json response)"
proof -
  obtain s1 where "request_headers use_auth s = (Inr headers, s1)"
    using assms(1) by (cases "request_headers use_auth s") auto
  with assms(2) show ?thesis
    by (simp add: do_request_unfold from_response_def raise_for_status_def)
qed


theorem do_request_classifies_response_witness:
  "fst (request_headers True (canned_registry (Inr (canned_response 500 ''Internal Server Error'' (JObj [])))))
     = Inr [(''Authorization'', ''Bearer token'')]
   \<and> fst (do_request ''PATCH'' ''/jobs/j-1'' (Some (JObj [])) True (Some 200)
            (canned_registry (Inr (canned_response 500 ''Internal Server Error'' (JObj [])))))
     = Inl (EjrHttpError
              (''EJR API error: 500 '' @ [CHR 0x27] @ ''Internal Server Error'' @ [CHR 0x27] @ '' on ''
               @ [CHR 0x60] @ ''POST '' @ [CHR 0x27] @ ''https://ejr.test/'' @ [CHR 0x27, CHR 0x60]
               @ '': {}'')
              (Some 500))
   \<and> fst (do_request ''PATCH'' ''/jobs/j-1'' (Some (JObj [])) True (Some 200)
            (canned_registry (Inr (canned_response 200 ''OK'' (JObj [(''job_id'', JStr ''j-1'')])))))
     = Inr (JObj [(''job_id'', JStr ''j-1'')])
   \<and> fst (do_request ''GET'' ''/health'' None True None
            (canned_registry (Inr (canned_response 503 ''Service Unavailable'' (JObj [])))))
     = Inl (HTTPError ''503 Server Error: Service Unavailable for url: https://ejr.test/'')"
proof -
  let ?s = "canned_registry (Inr (canned_response 500 ''Internal Server Error'' (JObj [])))"
  let ?t = "canned_registry (Inr (canned_response 200 ''OK'' (JObj [(''job_id'', JStr ''j-1'')])))"
  let ?u = "canned_registry (Inr (canned_response 503 ''Service Unavailable'' (JObj [])))"
  let ?h = "[(''Authorization'', ''Bearer token'')]"
  have hs: "fst (request_headers True ?s) = Inr ?h" by (simp add: run_defs)
  have ht: "fst (request_headers True ?t) = Inr ?h" by (simp add: run_defs)
  have hu: "fst (request_headers True ?u) = Inr ?h" by (simp add: run_defs)
  have rs: "env_respond ?s (sent ?s) (built_request ?s ''PATCH'' ''/jobs/j-1'' (Some (JObj [])) ?h)
            = Inr (canned_response 500 ''Internal Server Error'' (JObj []))"
    by (simp add: canned_registry_def)
  have rt: "env_respond ?t (sent ?t) (built_request ?t ''PATCH'' ''/jobs/j-1'' (Some (JObj [])) ?h)
            = Inr (canned_response 200 ''OK'' (JObj [(''job_id'', JStr ''j-1'')]))"
    by (simp add: canned_registry_def)
  have ru: "env_respond ?u (sent ?u) (built_request ?u ''GET'' ''/health'' None ?h)
            = Inr (canned_response 503 ''Service Unavailable'' (JObj []))"
    by (simp add: canned_registry_def)
  have n: "int_str 500 = ''500''" "int_str 503 = ''503''" by code_simp+
  have q: "repr_str ''Internal Server Error'' = [CHR 0x27] @ ''Internal Server Error'' @ [CHR 0x27]"
    "repr_str ''https://ejr.test/'' = [CHR 0x27] @ ''https://ejr.test/'' @ [CHR 0x27]"
    by code_simp+
  have j: "repr_json (JObj []) = ''{}''" by (simp add: join_def)
  from do_request_classifies_response[OF hs rs, of "Some 200"]
    do_request_classifies_response[OF ht rt, of "Some 200"]
    do_request_classifies_response[OF hu ru, of None]
    hs n q j
  show ?thesis by (simp add: truthy_int_def canned_response_def)
qed

text \<open>
  As stated, claim C5 fails twice: without an expected status a 304 answer is a success
  although it is not a 2xx status, and with expected status 404 a 404 answer is not
  returned as a parsed body but raised by the transport's check.
\<close>
theorem do_request_generic_check_counterexample:
  "fst (do_request ''GET'' ''/health'' None False None
          (canned_registry (Inr (canned_response 304 ''Not Modified'' (JObj [])))))
     = Inr (JObj [])
   \<and> fst (do_request ''GET'' ''/jobs/j-1'' None False (Some 404)
          (canned_registry (Inr (canned_response 404 ''Not Found'' (JObj [])))))
     = Inl (HTTPError ''404 Client Error: Not Found for url: https://ejr.test/'')"
proof -
  have n: "int_str 404 = ''404''" by code_simp
  show ?thesis by (simp add: run_defs n)
qed







section \<open>Decimal text round trip\<close>

lemma digit_cases: "(d::nat) < 10 \<Longrightarrow> d \<in> {0, 1, 2, 3, 4, 5, 6, 7, 8, 9}"
  by auto

lemma digit_char_is_digit: "d < 10 \<Longrightarrow> is_digit (digit_char d)"
  by (drule digit_cases) (auto simp: digit_char_def is_digit_def)

lemma digit_val_digit_char: "d < 10 \<Longrightarrow> digit_val (digit_char d) = d"
  by (drule digit_cases) (auto simp: digit_char_def digit_val_def)

lemma nat_str_digits: "list_all is_digit (nat_str n)"
proof (induction n rule: nat_str.induct)
  case (1 n)
  show ?case
  proof (cases "n < 10")
    case True
    then show ?thesis by (simp add: nat_str.simps[of n] digit_char_is_digit)
  next
    case False
    with 1 show ?thesis by (simp add: nat_str.simps[of n] digit_char_is_digit)
  qed
qed

lemma nat_str_nonempty: "nat_str n \<noteq> []"
  by (simp add: nat_str.simps[of n])

lemma digits_nat_snoc: "digits_nat (ds @ [c]) = 10 * digits_nat ds + digit_val c"
  by (simp add: digits_nat_def)

lemma digits_nat_nat_str: "digits_nat (nat_str n) = n"
proof (induction n rule: nat_str.induct)
  case (1 n)
  show ?case
  proof (cases "n < 10")
    case True
    then show ?thesis by (simp add: nat_str.simps[of n] digits_nat_def digit_val_digit_char)
  next
    case False
    with 1 have "digits_nat (nat_str (n div 10)) = n div 10" by simp
    with False show ?thesis
      by (simp add: nat_str.simps[of n] digits_nat_snoc digit_val_digit_char)
  qed
qed

lemma digits_nat_zeros: "digits_nat (replicate k (CHR ''0'') @ ds) = digits_nat ds"
proof -
  have "foldl (\<lambda>a c. 10 * a + digit_val c) 0 (replicate k (CHR ''0'')) = 0"
    by (induction k) (simp_all add: digit_val_def)
  then show ?thesis by (simp add: digits_nat_def)
qed

lemma is_digit_chars:
  "is_digit c \<Longrightarrow> \<not> is_space c \<and> c \<noteq> CHR ''_'' \<and> c \<noteq> CHR ''.'' \<and> c \<noteq> CHR ''-'' \<and> c \<noteq> CHR ''+''
     \<and> lower c \<noteq> CHR ''e''"
  by (auto simp: is_digit_def is_space_def lower_def)


lemma parse_exponent_signed: "parse_exponent (signed_str k) = Some k"
proof (cases "k < 0")
  case True
  then show ?thesis
    using nat_str_digits[of "nat (- k)"] nat_str_nonempty[of "nat (- k)"]
    by (simp add: parse_exponent_def signed_str_def split_sign_def digits_nat_nat_str)
next
  case False
  then show ?thesis
    using nat_str_digits[of "nat k"] nat_str_nonempty[of "nat k"]
    by (simp add: parse_exponent_def signed_str_def split_sign_def digits_nat_nat_str)
qed

lemma span_digits:
  assumes "list_all is_digit ds" and "rest = [] \<or> \<not> is_digit (hd rest)"
  shows "takeWhile is_digit (ds @ rest) = ds" and "dropWhile is_digit (ds @ rest) = rest"
proof -
  from assms(1) have a: "\<And>x. x \<in> set ds \<Longrightarrow> is_digit x" by (simp add: list_all_iff)
  from assms(2) have t: "takeWhile is_digit rest = []" and d: "dropWhile is_digit rest = rest"
    by (cases rest; auto)+
  show "takeWhile is_digit (ds @ rest) = ds" using a t by (simp add: takeWhile_append2)
  show "dropWhile is_digit (ds @ rest) = rest" using a d by (simp add: dropWhile_append2)
qed

lemma lower_marker: "lower (CHR ''E'') = CHR ''e''" "lower (CHR ''e'') = CHR ''e''"
  by code_simp+

lemma parse_number_plain:
  assumes "list_all is_digit ip" and "ip \<noteq> []"
  shows "parse_number sg (ip @ (case k of None \<Rightarrow> [] | Some e \<Rightarrow> (if cap then ''E'' else ''e'') @ signed_str e))
         = Some (Finite sg (digits_nat ip) (case k of None \<Rightarrow> 0 | Some e \<Rightarrow> e))"
proof -
  let ?ex = "case k of None \<Rightarrow> [] | Some e \<Rightarrow> (if cap then ''E'' else ''e'') @ signed_str e"
  have nd: "?ex = [] \<or> \<not> is_digit (hd ?ex)" by (cases k) (simp_all add: is_digit_def)
  note s1 = span_digits[OF assms(1) nd]
  show ?thesis
    unfolding parse_number_def Let_def s1
    using assms(2) by (cases k) (simp_all add: lower_marker parse_exponent_signed)
qed

lemma parse_number_fraction:
  assumes "list_all is_digit ip" and "ip \<noteq> []" and "list_all is_digit fp"
  shows "parse_number sg (ip @ ''.'' @ fp
           @ (case k of None \<Rightarrow> [] | Some e \<Rightarrow> (if cap then ''E'' else ''e'') @ signed_str e))
         = Some (Finite sg (digits_nat (ip @ fp))
                   ((case k of None \<Rightarrow> 0 | Some e \<Rightarrow> e) - int (length fp)))"
proof -
  let ?ex = "case k of None \<Rightarrow> [] | Some e \<Rightarrow> (if cap then ''E'' else ''e'') @ signed_str e"
  have nd1: "''.'' @ fp @ ?ex = [] \<or> \<not> is_digit (hd (''.'' @ fp @ ?ex))" by (simp add: is_digit_def)
  have nd2: "?ex = [] \<or> \<not> is_digit (hd ?ex)" by (cases k) (simp_all add: is_digit_def)
  note s1 = span_digits[OF assms(1) nd1]
  note s2 = span_digits[OF assms(3) nd2]
  have r: "(case ''.'' @ fp @ ?ex of [] \<Rightarrow> [] | c # cs \<Rightarrow> if c = CHR ''.'' then takeWhile is_digit cs else [])
           = fp"
    "(case ''.'' @ fp @ ?ex of [] \<Rightarrow> [] | c # cs \<Rightarrow> if c = CHR ''.'' then dropWhile is_digit cs
         else ''.'' @ fp @ ?ex) = ?ex"
    using s2 by simp_all
  show ?thesis
    unfolding parse_number_def Let_def s1 r
    using assms(2) by (cases k) (simp_all add: lower_marker parse_exponent_signed)
qed


lemma strip_plain:
  assumes "\<forall>c\<in>set t. \<not> is_space c \<and> c \<noteq> CHR ''_''"
  shows "filter (\<lambda>c. c \<noteq> CHR ''_'') (strip t) = t"
proof -
  have d: "\<And>u. \<forall>c\<in>set u. \<not> is_space c \<Longrightarrow> dropWhile is_space u = u"
    by (case_tac u) simp_all
  have "strip t = t"
    using assms by (simp add: strip_def d)
  moreover have "filter (\<lambda>c. c \<noteq> CHR ''_'') t = t"
    using assms by (simp add: filter_id_conv)
  ultimately show ?thesis by simp
qed

lemma marks_plain:
  "\<not> is_space (CHR ''-'')" "\<not> is_space (CHR ''+'')" "\<not> is_space (CHR ''.'')"
  "\<not> is_space (CHR ''E'')" "\<not> is_space (CHR ''e'')"
  by code_simp+

lemma digits_plain: "list_all is_digit ds \<Longrightarrow> c \<in> set ds \<Longrightarrow> \<not> is_space c \<and> c \<noteq> CHR ''_''"
  by (simp add: list_all_iff is_digit_chars)

lemma signed_str_plain: "c \<in> set (signed_str e) \<Longrightarrow> \<not> is_space c \<and> c \<noteq> CHR ''_''"
  using digits_plain[OF nat_str_digits]
  by (auto simp: signed_str_def marks_plain split: if_splits)

lemma exponent_plain:
  "c \<in> set (case k of None \<Rightarrow> [] | Some e \<Rightarrow> (if cap then ''E'' else ''e'') @ signed_str e)
   \<Longrightarrow> \<not> is_space c \<and> c \<noteq> CHR ''_''"
  using signed_str_plain by (cases k) (auto simp: marks_plain split: if_splits)

lemma decimal_of_number:
  assumes ip: "list_all is_digit ip" "ip \<noteq> []"
    and body: "body = ip @ (case k of None \<Rightarrow> [] | Some e \<Rightarrow> (if cap then ''E'' else ''e'') @ signed_str e)
               \<or> (\<exists>fp. list_all is_digit fp \<and>
                    body = ip @ ''.'' @ fp
                      @ (case k of None \<Rightarrow> [] | Some e \<Rightarrow> (if cap then ''E'' else ''e'') @ signed_str e))"
  shows "decimal_of_str (sign_str sg @ body) = parse_number sg body"
proof -
  let ?ex = "case k of None \<Rightarrow> [] | Some e \<Rightarrow> (if cap then ''E'' else ''e'') @ signed_str e"
  obtain c cs where c: "ip = c # cs" using ip(2) by (cases ip) auto
  with ip(1) have dc: "is_digit c" by simp
  from body c obtain rest where b: "body = c # rest" by auto
  define P where "P x \<longleftrightarrow> \<not> is_space x \<and> x \<noteq> CHR ''_''" for x
  have p1: "\<And>x. x \<in> set ip \<Longrightarrow> P x"
    unfolding P_def by (rule digits_plain[OF ip(1)])
  have p2: "\<And>x. x \<in> set ?ex \<Longrightarrow> P x"
    unfolding P_def by (rule exponent_plain)
  have p3: "P (CHR ''.'')"
    unfolding P_def by (simp add: marks_plain)
  have "\<forall>x\<in>set body. P x"
    using body
  proof (elim disjE exE conjE)
    assume "body = ip @ ?ex"
    then show ?thesis using p1 p2 by auto
  next
    fix fp
    assume fp: "list_all is_digit fp" and "body = ip @ ''.'' @ fp @ ?ex"
    moreover have "\<And>x. x \<in> set fp \<Longrightarrow> P x"
      unfolding P_def by (rule digits_plain[OF fp])
    ultimately show ?thesis using p1 p2 p3 by auto
  qed
  then have plain_body: "\<forall>x\<in>set body. \<not> is_space x \<and> x \<noteq> CHR ''_''"
    unfolding P_def .
  then have plain: "\<forall>x\<in>set (sign_str sg @ body). \<not> is_space x \<and> x \<noteq> CHR ''_''"
    by (cases sg) (simp_all add: sign_str_def marks_plain)
  have sp: "split_sign (sign_str sg @ body) = (sg, body)"
    using is_digit_chars[OF dc] unfolding b by (cases sg) (simp_all add: split_sign_def sign_str_def)
  have la: "body \<noteq> [] \<and> (is_digit (hd body) \<or> (hd body = CHR ''.'' \<and> tl body \<noteq> [] \<and> is_digit (hd (tl body))))"
    unfolding b using dc by simp
  show ?thesis
    unfolding decimal_of_str_def strip_plain[OF plain] sp
    using la by (simp only: prod.case simp_thms if_True)
qed


lemma decimal_roundtrip_finite:
  "decimal_of_str (decimal_str cap (Finite sg coeff ex)) = Some (Finite sg coeff ex)"
proof -
  let ?digs = "nat_str coeff"
  let ?len = "int (length ?digs)"
  let ?ld = "ex + ?len"
  let ?E = "\<lambda>k. case k of None \<Rightarrow> [] | Some e \<Rightarrow> (if cap then ''E'' else ''e'') @ signed_str e"
  have dg: "list_all is_digit ?digs" "?digs \<noteq> []" "digits_nat ?digs = coeff"
    by (simp_all add: nat_str_digits nat_str_nonempty digits_nat_nat_str)
  have len1: "1 \<le> ?len" using dg(2) by (cases ?digs) simp_all
  have zero: "list_all is_digit ''0''" by (simp add: is_digit_def)
  have zeros: "\<And>n. list_all is_digit (replicate n (CHR ''0''))"
    by (simp add: list_all_iff is_digit_def)
  consider (small) "ex \<le> 0" "?ld > - 6" "?ld \<le> 0"
    | (whole) "ex \<le> 0" "?ld > - 6" "0 < ?ld" "?ld \<ge> ?len"
    | (point) "ex \<le> 0" "?ld > - 6" "0 < ?ld" "?ld < ?len"
    | (sci1) "\<not> (ex \<le> 0 \<and> ?ld > - 6)" "?len = 1"
    | (sci) "\<not> (ex \<le> 0 \<and> ?ld > - 6)" "1 < ?len"
    using len1 by linarith
  then show ?thesis
  proof cases
    case small
    let ?fp = "replicate (nat (- ?ld)) (CHR ''0'') @ ?digs"
    have str: "decimal_str cap (Finite sg coeff ex) = sign_str sg @ (''0'' @ ''.'' @ ?fp @ ?E None)"
      using small by (simp add: decimal_str_def Let_def)
    have fp: "list_all is_digit ?fp" using dg(1) zeros by simp
    have "decimal_of_str (sign_str sg @ (''0'' @ ''.'' @ ?fp @ ?E None))
          = parse_number sg (''0'' @ ''.'' @ ?fp @ ?E None)"
      by (rule decimal_of_number[where ip="''0''" and k=None and cap=cap])
         (use fp zero in auto)
    also have "\<dots> = Some (Finite sg (digits_nat (''0'' @ ?fp)) ((case None of None \<Rightarrow> 0 | Some e \<Rightarrow> e) - int (length ?fp)))"
      by (rule parse_number_fraction[OF zero _ fp, where k=None]) simp
    also have "digits_nat (''0'' @ ?fp) = coeff"
      using digits_nat_zeros[of "Suc (nat (- ?ld))" ?digs] dg(3) by simp
    also have "(case None of None \<Rightarrow> 0 | Some e \<Rightarrow> e) - int (length ?fp) = ex"
      using small by simp
    finally show ?thesis unfolding str .
  next
    case whole
    then have e0: "ex = 0" by linarith
    have str: "decimal_str cap (Finite sg coeff ex) = sign_str sg @ (?digs @ ?E None)"
      using whole e0 by (simp add: decimal_str_def Let_def)
    have "decimal_of_str (sign_str sg @ (?digs @ ?E None)) = parse_number sg (?digs @ ?E None)"
      by (rule decimal_of_number[where ip="?digs" and k=None and cap=cap]) (use dg in auto)
    also have "\<dots> = Some (Finite sg (digits_nat ?digs) (case None of None \<Rightarrow> 0 | Some e \<Rightarrow> e))"
      by (rule parse_number_plain[OF dg(1,2), where k=None])
    finally show ?thesis unfolding str using dg(3) e0 by simp
  next
    case point
    let ?ip = "take (nat ?ld) ?digs"
    let ?fp = "drop (nat ?ld) ?digs"
    have str: "decimal_str cap (Finite sg coeff ex) = sign_str sg @ (?ip @ ''.'' @ ?fp @ ?E None)"
      using point by (simp add: decimal_str_def Let_def)
    have ip: "list_all is_digit ?ip" "?ip \<noteq> []" and fp: "list_all is_digit ?fp"
      using dg(1,2) point by (auto simp: list_all_iff dest: in_set_takeD in_set_dropD)
    have "decimal_of_str (sign_str sg @ (?ip @ ''.'' @ ?fp @ ?E None))
          = parse_number sg (?ip @ ''.'' @ ?fp @ ?E None)"
      by (rule decimal_of_number[where ip="?ip" and k=None and cap=cap]) (use ip fp in auto)
    also have "\<dots> = Some (Finite sg (digits_nat (?ip @ ?fp)) ((case None of None \<Rightarrow> 0 | Some e \<Rightarrow> e) - int (length ?fp)))"
      by (rule parse_number_fraction[OF ip fp, where k=None])
    also have "digits_nat (?ip @ ?fp) = coeff" using dg(3) by simp
    also have "(case None of None \<Rightarrow> 0 | Some e \<Rightarrow> e) - int (length ?fp) = ex"
      using point by simp
    finally show ?thesis unfolding str .
  next
    case sci1
    let ?k = "if ?ld = 1 then None else Some (?ld - 1)"
    have str: "decimal_str cap (Finite sg coeff ex) = sign_str sg @ (?digs @ ?E ?k)"
      using sci1 by (auto simp: decimal_str_def Let_def)
    have "decimal_of_str (sign_str sg @ (?digs @ ?E ?k)) = parse_number sg (?digs @ ?E ?k)"
      by (rule decimal_of_number[where ip="?digs" and k="?k" and cap=cap]) (use dg in auto)
    also have "\<dots> = Some (Finite sg (digits_nat ?digs) (case ?k of None \<Rightarrow> 0 | Some e \<Rightarrow> e))"
      by (rule parse_number_plain[OF dg(1,2)])
    also have "(case ?k of None \<Rightarrow> 0 | Some e \<Rightarrow> e) = ex"
      using sci1 by simp
    finally show ?thesis unfolding str using dg(3) by simp
  next
    case sci
    let ?k = "if ?ld = 1 then None else Some (?ld - 1)"
    let ?ip = "take 1 ?digs"
    let ?fp = "drop 1 ?digs"
    have str: "decimal_str cap (Finite sg coeff ex) = sign_str sg @ (?ip @ ''.'' @ ?fp @ ?E ?k)"
      using sci by (auto simp: decimal_str_def Let_def)
    have ip: "list_all is_digit ?ip" "?ip \<noteq> []" and fp: "list_all is_digit ?fp"
      using dg(1,2) by (auto simp: list_all_iff dest: in_set_takeD in_set_dropD)
    have "decimal_of_str (sign_str sg @ (?ip @ ''.'' @ ?fp @ ?E ?k))
          = parse_number sg (?ip @ ''.'' @ ?fp @ ?E ?k)"
      by (rule decimal_of_number[where ip="?ip" and k="?k" and cap=cap]) (use ip fp in auto)
    also have "\<dots> = Some (Finite sg (digits_nat (?ip @ ?fp)) ((case ?k of None \<Rightarrow> 0 | Some e \<Rightarrow> e) - int (length ?fp)))"
      by (rule parse_number_fraction[OF ip fp])
    also have "digits_nat (?ip @ ?fp) = coeff" using dg(3) by simp
    also have "(case ?k of None \<Rightarrow> 0 | Some e \<Rightarrow> e) - int (length ?fp) = ex"
      using sci by simp
    finally show ?thesis unfolding str .
  qed
qed


lemma letters_plain:
  "\<forall>c\<in>set ''Infinity''. \<not> is_space c \<and> c \<noteq> CHR ''_''"
  "\<forall>c\<in>set ''sNaN''. \<not> is_space c \<and> c \<noteq> CHR ''_''"
  by code_simp+

lemma lower_words:
  "map lower ''Infinity'' = ''infinity''" "map lower ''NaN'' = ''nan''" "map lower ''sNaN'' = ''snan''"
  by code_simp+

lemma letters_not_digits:
  "\<not> is_digit (CHR ''I'')" "\<not> is_digit (CHR ''N'')" "\<not> is_digit (CHR ''s'')"
  by code_simp+

lemma decimal_roundtrip_infinity:
  "decimal_of_str (decimal_str cap (Infinity sg)) = Some (Infinity sg)"
proof -
  have plain: "\<forall>c\<in>set (sign_str sg @ ''Infinity''). \<not> is_space c \<and> c \<noteq> CHR ''_''"
    using letters_plain(1) by (cases sg) (simp_all add: sign_str_def marks_plain)
  have sp: "split_sign (sign_str sg @ ''Infinity'') = (sg, ''Infinity'')"
    by (cases sg) (simp_all add: split_sign_def sign_str_def)
  have sel: "\<not> (''Infinity'' \<noteq> [] \<and> (is_digit (hd ''Infinity'')
               \<or> (hd ''Infinity'' = CHR ''.'' \<and> tl ''Infinity'' \<noteq> [] \<and> is_digit (hd (tl ''Infinity'')))))"
    by (simp add: letters_not_digits)
  have ps: "parse_special sg ''Infinity'' = Some (Infinity sg)"
    unfolding parse_special_def Let_def lower_words by simp
  show ?thesis
    unfolding decimal_str_def decimal.case decimal_of_str_def strip_plain[OF plain] sp prod.case
    using sel ps by (simp only: if_False)
qed

lemma decimal_roundtrip_nan:
  "decimal_of_str (decimal_str cap (NaN sg signal payload)) = Some (NaN sg signal payload)"
proof -
  let ?ds = "if payload = 0 then [] else nat_str payload"
  let ?w = "if signal then ''sNaN'' else ''NaN''"
  have "digits_nat [] = 0" by (simp add: digits_nat_def)
  then have ds: "list_all is_digit ?ds" "digits_nat ?ds = payload"
    by (simp_all add: nat_str_digits digits_nat_nat_str)
  have str: "decimal_str cap (NaN sg signal payload) = sign_str sg @ (?w @ ?ds)"
    by (simp add: decimal_str_def)
  have pw: "\<forall>c\<in>set ?w. \<not> is_space c \<and> c \<noteq> CHR ''_''"
    using letters_plain(2) by simp
  have pd: "\<forall>c\<in>set ?ds. \<not> is_space c \<and> c \<noteq> CHR ''_''"
    using digits_plain[OF ds(1)] by blast
  have plain: "\<forall>c\<in>set (sign_str sg @ (?w @ ?ds)). \<not> is_space c \<and> c \<noteq> CHR ''_''"
    using pw pd by (cases sg) (auto simp: sign_str_def marks_plain)
  have sp: "split_sign (sign_str sg @ (?w @ ?ds)) = (sg, ?w @ ?ds)"
    by (cases sg) (simp_all add: split_sign_def sign_str_def)
  have sel: "\<not> (?w @ ?ds \<noteq> [] \<and> (is_digit (hd (?w @ ?ds))
               \<or> (hd (?w @ ?ds) = CHR ''.'' \<and> tl (?w @ ?ds) \<noteq> [] \<and> is_digit (hd (tl (?w @ ?ds))))))"
    by (simp add: letters_not_digits)
  have ps: "parse_special sg (?w @ ?ds) = Some (NaN sg signal payload)"
  proof (cases signal)
    case True
    have "map lower (''sNaN'' @ ?ds) = ''snan'' @ map lower ?ds"
      using lower_words(3) by simp
    then show ?thesis
      using True ds unfolding parse_special_def Let_def by simp
  next
    case False
    have "map lower (''NaN'' @ ?ds) = ''nan'' @ map lower ?ds"
      using lower_words(2) by simp
    then show ?thesis
      using False ds unfolding parse_special_def Let_def by simp
  qed
  show ?thesis
    unfolding str decimal_of_str_def strip_plain[OF plain] sp prod.case
    using sel ps by (simp only: if_False)
qed

lemma decimal_roundtrip: "decimal_of_str (decimal_str cap d) = Some d"
  by (cases d) (simp_all only: decimal_roundtrip_finite decimal_roundtrip_infinity decimal_roundtrip_nan)


lemma usage_digits: "nat_str 123456789012345 = ''123456789012345''"
  by (simp add: nat_str.simps digit_char_def)

lemma usage_example:
  "decimal_str True (Finite False 123456789012345 (- 13)) = ''12.3456789012345''"
  by (simp add: decimal_str_def Let_def usage_digits sign_str_def)

text \<open>
  Claim C7.  Every request that \<^verbatim>\<open>set_dependency_usage\<close> issues carries the usage as the
  string \<^verbatim>\<open>str(dependency_usage)\<close>, and reading that string back as a decimal gives the
  very decimal that was written: same sign, same coefficient, same exponent (and the same
  infinity or not-a-number).  No binary floating-point value is involved.
\<close>

theorem dependency_usage_round_trips:
  "(\<forall>r\<in>set (issued (set_dependency_usage job_id dependency_usage) s).
      req_json r =
        Some (JObj [(''dependency_usage'',
                     JStr (decimal_str (env_decimal_capitals s) dependency_usage))]))
   \<and> decimal_of_str (decimal_str (env_decimal_capitals s) dependency_usage) = Some dependency_usage"
proof -
  have "issued (set_dependency_usage job_id dependency_usage) s
        = issued (ejr_update job_id
            (JObj [(''dependency_usage'',
                    JStr (decimal_str (env_decimal_capitals s) dependency_usage))])) s"
    by (simp add: issued_def set_dependency_usage_def)
  then show ?thesis
    by (simp add: issued_update built_request_def decimal_roundtrip split: sum.splits)
qed

theorem dependency_usage_round_trips_witness:
  "map (\<lambda>r. payload_field r ''dependency_usage'')
     (issued (set_dependency_usage ''j-1'' (Finite False 123456789012345 (- 13)))
        (canned_registry (Inr (canned_response 200 ''OK'' (JObj [])))))
     = [Some (JStr ''12.3456789012345'')]
   \<and> decimal_of_str ''12.3456789012345'' = Some (Finite False 123456789012345 (- 13))"
proof -
  let ?s = "canned_registry (Inr (canned_response 200 ''OK'' (JObj [])))"
  let ?d = "Finite False 123456789012345 (- 13)"
  have c: "env_decimal_capitals ?s = True" by (simp add: canned_registry_def)
  have l: "length (issued (set_dependency_usage ''j-1'' ?d) ?s) = 1"
    by (simp add: set_dependency_usage_def op_defs run_defs)
  then obtain r where r: "issued (set_dependency_usage ''j-1'' ?d) ?s = [r]"
    by (cases "issued (set_dependency_usage ''j-1'' ?d) ?s") auto
  from dependency_usage_round_trips[of "''j-1''" ?d ?s] r c usage_example
  have "req_json r = Some (JObj [(''dependency_usage'', JStr ''12.3456789012345'')])"
    and "decimal_of_str ''12.3456789012345'' = Some ?d"
    by simp_all
  with r show ?thesis by (simp add: payload_field_def)
qed

end
